theory Spec2Isabelle
  imports Main "HOL-Library.Word" "HOL-Library.AList"
begin

chapter \<open>The model\<close>

section \<open>The wire codec of \<^verbatim>\<open>ipc.ts\<close>\<close>

text \<open>
  The IPC layer of the runtime lives in one file,
  \<^verbatim>\<open>core/base/parts/ipc/common/ipc.ts\<close>. This first section embeds its
  tag-length-value codec: \<^verbatim>\<open>BufferReader\<close>, \<^verbatim>\<open>BufferWriter\<close>,
  \<^verbatim>\<open>createSizeBuffer\<close>, \<^verbatim>\<open>readSizeBuffer\<close>, \<^verbatim>\<open>serialize\<close> and
  \<^verbatim>\<open>deserialize\<close>.
\<close>

subsection \<open>Byte buffers and strings\<close>

text \<open>
  Modelled from the spec: the class \<^verbatim>\<open>VSBuffer\<close> (\<^verbatim>\<open>common/buffer\<close>) is imported
  by \<^verbatim>\<open>ipc.ts\<close> but is not part of the sources at hand. A buffer is a list of
  bytes; \<^verbatim>\<open>byteLength\<close> is \<open>length\<close> and \<^verbatim>\<open>VSBuffer.concat\<close> is \<open>concat\<close>.
  Sizes are 4 bytes, big-endian, each byte keeping the low 8 bits of what is stored in
  it. Reading an integer from a buffer that is too short for it is the error
  \<open>OutOfRange\<close>: the spec leaves decode failures open, so no claim below relies on
  what such a read returns.
\<close>

type_synonym VSBuffer = "8 word list"

text \<open>
  A JavaScript string is a sequence of 16-bit code units, and any sequence is a
  string: a surrogate (a unit from \<open>D800\<close> to \<open>DFFF\<close>) need not be paired.
\<close>

type_synonym JSString = "16 word list"

text \<open>
  \<open>JSONError\<close> stands for an exception of \<^verbatim>\<open>JSON.parse\<close> or of
  \<^verbatim>\<open>JSON.stringify\<close>, including \<^verbatim>\<open>JSON.stringify\<close> returning no text at all.
\<close>

datatype error = OutOfRange | JSONError

text \<open>
  The values \<^verbatim>\<open>serialize\<close> tells apart, in the order of its tests: \<^verbatim>\<open>undefined\<close>,
  a string, a native \<^verbatim>\<open>Buffer\<close> (only where \<^verbatim>\<open>hasBuffer\<close> holds), a
  \<^verbatim>\<open>VSBuffer\<close>, an array, and everything else, which goes through JSON. The
  type \<open>'j\<close> is the type of those other values; \<^verbatim>\<open>JSON.stringify\<close> and
  \<^verbatim>\<open>JSON.parse\<close> are built into the language and are parameters of the model.
\<close>

datatype 'j any =
    Undefined
  | Str JSString
  | NodeBuffer VSBuffer
  | VSBuf VSBuffer
  | Arr "'j any list"
  | Other 'j

text \<open>
  Modelled from the spec: strings are UTF-8 on the wire. \<^verbatim>\<open>VSBuffer.fromString\<close> is
  the UTF-8 encoder of the platform. It reads the string as code points, a high
  surrogate followed by a low one being one code point from \<open>10000\<close> on, and any other
  surrogate being read as the replacement character \<open>FFFD\<close>; each code point is then
  written as 1 to 4 bytes.
\<close>

fun codePoints :: "JSString \<Rightarrow> nat list" where
  "codePoints [] = []"
| "codePoints [u] = [if 0xD800 \<le> unat u \<and> unat u < 0xE000 then 0xFFFD else unat u]"
| "codePoints (u # v # s) =
     (if 0xD800 \<le> unat u \<and> unat u < 0xDC00 then
        (if 0xDC00 \<le> unat v \<and> unat v < 0xE000
         then (0x10000 + (unat u - 0xD800) * 0x400 + (unat v - 0xDC00)) # codePoints s
         else 0xFFFD # codePoints (v # s))
      else if 0xDC00 \<le> unat u \<and> unat u < 0xE000 then 0xFFFD # codePoints (v # s)
      else unat u # codePoints (v # s))"

definition utf8 :: "nat \<Rightarrow> VSBuffer" where
  "utf8 cp =
     (if cp < 0x80 then [of_nat cp]
      else if cp < 0x800 then [of_nat (0xC0 + cp div 0x40), of_nat (0x80 + cp mod 0x40)]
      else if cp < 0x10000 then
        [of_nat (0xE0 + cp div 0x1000), of_nat (0x80 + cp div 0x40 mod 0x40),
         of_nat (0x80 + cp mod 0x40)]
      else
        [of_nat (0xF0 + cp div 0x40000), of_nat (0x80 + cp div 0x1000 mod 0x40),
         of_nat (0x80 + cp div 0x40 mod 0x40), of_nat (0x80 + cp mod 0x40)])"

definition fromString :: "JSString \<Rightarrow> VSBuffer" where
  "fromString s = concat (map utf8 (codePoints s))"

text \<open>
  Modelled from the spec: \<^verbatim>\<open>VSBuffer.toString\<close> is the UTF-8 decoder of the
  platform. A lead byte announces 1 to 4 bytes; the byte after a lead byte has a
  narrower range where the encoding would otherwise be overlong, a surrogate or above
  \<open>10FFFF\<close>. A byte that cannot start or continue a sequence ends the sequence read so
  far, which is replaced by \<open>FFFD\<close>, and decoding goes on at that byte. A leading
  byte-order mark is kept, as the \<^verbatim>\<open>Buffer\<close> of Node does. The code points are then
  written as code units, those from \<open>10000\<close> on as a surrogate pair.
\<close>

definition continuation :: "nat \<Rightarrow> nat \<Rightarrow> 8 word \<Rightarrow> bool" where
  "continuation lower upper b \<longleftrightarrow> lower \<le> unat b \<and> unat b \<le> upper"

fun decode :: "VSBuffer \<Rightarrow> nat list" where
  "decode [] = []"
| "decode (b # bs) =
     (let x = unat b in
      if x < 0x80 then x # decode bs
      else if 0xC2 \<le> x \<and> x \<le> 0xDF then
        (case bs of
           c # cs \<Rightarrow>
             if continuation 0x80 0xBF c
             then ((x - 0xC0) * 0x40 + (unat c - 0x80)) # decode cs
             else 0xFFFD # decode bs
         | [] \<Rightarrow> [0xFFFD])
      else if 0xE0 \<le> x \<and> x \<le> 0xEF then
        (case bs of
           c # cs \<Rightarrow>
             if continuation (if x = 0xE0 then 0xA0 else 0x80) (if x = 0xED then 0x9F else 0xBF) c
             then (case cs of
                     d # ds \<Rightarrow>
                       if continuation 0x80 0xBF d
                       then ((x - 0xE0) * 0x1000 + (unat c - 0x80) * 0x40 + (unat d - 0x80))
                              # decode ds
                       else 0xFFFD # decode cs
                   | [] \<Rightarrow> [0xFFFD])
             else 0xFFFD # decode bs
         | [] \<Rightarrow> [0xFFFD])
      else if 0xF0 \<le> x \<and> x \<le> 0xF4 then
        (case bs of
           c # cs \<Rightarrow>
             if continuation (if x = 0xF0 then 0x90 else 0x80) (if x = 0xF4 then 0x8F else 0xBF) c
             then (case cs of
                     d # ds \<Rightarrow>
                       if continuation 0x80 0xBF d
                       then (case ds of
                               e # es \<Rightarrow>
                                 if continuation 0x80 0xBF e
                                 then ((x - 0xF0) * 0x40000 + (unat c - 0x80) * 0x1000
                                        + (unat d - 0x80) * 0x40 + (unat e - 0x80)) # decode es
                                 else 0xFFFD # decode ds
                             | [] \<Rightarrow> [0xFFFD])
                       else 0xFFFD # decode cs
                   | [] \<Rightarrow> [0xFFFD])
             else 0xFFFD # decode bs
         | [] \<Rightarrow> [0xFFFD])
      else 0xFFFD # decode bs)"

definition codeUnits :: "nat \<Rightarrow> JSString" where
  "codeUnits cp =
     (if cp < 0x10000 then [of_nat cp]
      else [of_nat (0xD800 + (cp - 0x10000) div 0x400), of_nat (0xDC00 + (cp - 0x10000) mod 0x400)])"

definition toString :: "VSBuffer \<Rightarrow> JSString" where
  "toString b = concat (map codeUnits (decode b))"

definition slice :: "VSBuffer \<Rightarrow> nat \<Rightarrow> nat \<Rightarrow> VSBuffer" where
  "slice b start end = take (end - start) (drop start b)"

definition writeUInt32BE :: "nat \<Rightarrow> VSBuffer" where
  "writeUInt32BE v = [of_nat (v div 2 ^ 24), of_nat (v div 2 ^ 16), of_nat (v div 2 ^ 8), of_nat v]"

fun readUInt32BE :: "VSBuffer \<Rightarrow> error + nat" where
  "readUInt32BE (a # b # c # d # rest) = Inr (unat a * 2 ^ 24 + unat b * 2 ^ 16 + unat c * 2 ^ 8 + unat d)"
| "readUInt32BE _ = Inl OutOfRange"

definition writeUInt8 :: "nat \<Rightarrow> VSBuffer" where
  "writeUInt8 v = [of_nat v]"

fun readUInt8 :: "VSBuffer \<Rightarrow> error + nat" where
  "readUInt8 (a # rest) = Inr (unat a)"
| "readUInt8 [] = Inl OutOfRange"

subsection \<open>\<^verbatim>\<open>BufferReader\<close> and \<^verbatim>\<open>BufferWriter\<close>\<close>

text \<open>
  \<^verbatim>\<open>read(bytes)\<close> slices \<^verbatim>\<open>[pos, pos + bytes)\<close> out of the buffer and advances
  \<^verbatim>\<open>pos\<close> by the length of what it really got, which is shorter than \<^verbatim>\<open>bytes\<close>
  at the end of the buffer.
\<close>

record BufferReader =
  buffer :: VSBuffer
  pos :: nat

definition BufferReader_read :: "nat \<Rightarrow> BufferReader \<Rightarrow> VSBuffer \<times> BufferReader" where
  "BufferReader_read bytes r =
     (let result = slice (buffer r) (pos r) (pos r + bytes)
      in (result, r\<lparr>pos := pos r + length result\<rparr>))"

record BufferWriter =
  buffers :: "VSBuffer list"


definition BufferWriter_write :: "VSBuffer \<Rightarrow> BufferWriter \<Rightarrow> BufferWriter" where
  "BufferWriter_write b w = w\<lparr>buffers := buffers w @ [b]\<rparr>"

subsection \<open>Sizes and tags\<close>

text \<open>The tags are the values of the enum \<^verbatim>\<open>DataType\<close>: 0 to 5.\<close>

definition createSizeBuffer :: "nat \<Rightarrow> VSBuffer" where
  "createSizeBuffer sz = writeUInt32BE sz"

definition readSizeBuffer :: "BufferReader \<Rightarrow> error + (nat \<times> BufferReader)" where
  "readSizeBuffer reader =
     (let (b, reader') = BufferReader_read 4 reader
      in case readUInt32BE b of Inl e \<Rightarrow> Inl e | Inr n \<Rightarrow> Inr (n, reader'))"

definition createOneByteBuffer :: "nat \<Rightarrow> VSBuffer" where
  "createOneByteBuffer v = writeUInt8 v"

subsection \<open>\<^verbatim>\<open>serialize\<close>\<close>

text \<open>
  The \<^verbatim>\<open>for (const el of data)\<close> loop of the array case is \<open>serialize_each\<close>.
  An exception leaves the loop at once.
\<close>

fun serialize :: "('j \<Rightarrow> JSString option) \<Rightarrow> BufferWriter \<Rightarrow> 'j any \<Rightarrow> error + BufferWriter"
  and serialize_each :: "('j \<Rightarrow> JSString option) \<Rightarrow> BufferWriter \<Rightarrow> 'j any list \<Rightarrow> error + BufferWriter"
where
  "serialize stringify writer Undefined = Inr (BufferWriter_write (createOneByteBuffer 0) writer)"
| "serialize stringify writer (Str d) =
     (let b = fromString d
      in Inr (BufferWriter_write b (BufferWriter_write (createSizeBuffer (length b)) (BufferWriter_write (createOneByteBuffer 1) writer))))"
| "serialize stringify writer (NodeBuffer d) =
     Inr (BufferWriter_write d (BufferWriter_write (createSizeBuffer (length d)) (BufferWriter_write (createOneByteBuffer 2) writer)))"
| "serialize stringify writer (VSBuf d) =
     Inr (BufferWriter_write d (BufferWriter_write (createSizeBuffer (length d)) (BufferWriter_write (createOneByteBuffer 3) writer)))"
| "serialize stringify writer (Arr d) =
     serialize_each stringify
       (BufferWriter_write (createSizeBuffer (length d)) (BufferWriter_write (createOneByteBuffer 4) writer)) d"
| "serialize stringify writer (Other d) =
     (case stringify d of
        None \<Rightarrow> Inl JSONError
      | Some text \<Rightarrow>
          (let b = fromString text
           in Inr (BufferWriter_write b (BufferWriter_write (createSizeBuffer (length b)) (BufferWriter_write (createOneByteBuffer 5) writer)))))"
| "serialize_each stringify writer [] = Inr writer"
| "serialize_each stringify writer (el # els) =
     (case serialize stringify writer el of
        Inl e \<Rightarrow> Inl e
      | Inr writer' \<Rightarrow> serialize_each stringify writer' els)"

subsection \<open>\<^verbatim>\<open>deserialize\<close>\<close>

text \<open>
  One tag byte, then the content. The counting loop of the array case is
  \<open>deserialize_loop\<close>, with \<open>i\<close>, \<open>length\<close> and \<open>result\<close> as in the source.
  The \<^verbatim>\<open>default\<close> branch of the switch falls out of the function, which then
  returns \<^verbatim>\<open>undefined\<close>.
\<close>

function deserialize :: "(JSString \<Rightarrow> 'j option) \<Rightarrow> BufferReader \<Rightarrow> error + ('j any \<times> BufferReader)"
  and deserialize_loop :: "(JSString \<Rightarrow> 'j option) \<Rightarrow> nat \<Rightarrow> nat \<Rightarrow> 'j any list \<Rightarrow> BufferReader
      \<Rightarrow> error + ('j any list \<times> BufferReader)"
where
  "deserialize parse reader =
     (let (t, r1) = BufferReader_read 1 reader
      in case readUInt8 t of
        Inl e \<Rightarrow> Inl e
      | Inr type \<Rightarrow>
         (if type = 0 then Inr (Undefined, r1)
          else if type = 1 then
            (case readSizeBuffer r1 of Inl e \<Rightarrow> Inl e
             | Inr (n, r2) \<Rightarrow> (let (b, r3) = BufferReader_read n r2 in Inr (Str (toString b), r3)))
          else if type = 2 then
            (case readSizeBuffer r1 of Inl e \<Rightarrow> Inl e
             | Inr (n, r2) \<Rightarrow> (let (b, r3) = BufferReader_read n r2 in Inr (NodeBuffer b, r3)))
          else if type = 3 then
            (case readSizeBuffer r1 of Inl e \<Rightarrow> Inl e
             | Inr (n, r2) \<Rightarrow> (let (b, r3) = BufferReader_read n r2 in Inr (VSBuf b, r3)))
          else if type = 4 then
            (case readSizeBuffer r1 of Inl e \<Rightarrow> Inl e
             | Inr (len, r2) \<Rightarrow>
                (case deserialize_loop parse 0 len [] r2 of Inl e \<Rightarrow> Inl e
                 | Inr (result, r3) \<Rightarrow> Inr (Arr result, r3)))
          else if type = 5 then
            (case readSizeBuffer r1 of Inl e \<Rightarrow> Inl e
             | Inr (n, r2) \<Rightarrow>
                (let (b, r3) = BufferReader_read n r2
                 in case parse (toString b) of
                      None \<Rightarrow> Inl JSONError
                    | Some v \<Rightarrow> Inr (Other v, r3)))
          else Inr (Undefined, r1)))"
| "deserialize_loop parse i len result reader =
     (if i < len then
        (case deserialize parse reader of
           Inl e \<Rightarrow> Inl e
         | Inr (v, reader') \<Rightarrow> deserialize_loop parse (Suc i) len (result @ [v]) reader')
      else Inr (result, reader))"
  by pat_completeness auto

text \<open>
  Termination: a call that returns has consumed its tag byte, so the bytes left in the
  reader decrease from one iteration of the loop to the next.
\<close>

definition remaining :: "BufferReader \<Rightarrow> nat" where
  "remaining r = length (buffer r) - pos r"

termination deserialize
proof -
  have rd: "remaining r' = remaining r - length b \<and> length b \<le> remaining r"
    if "BufferReader_read n r = (b, r')" for n r b r'
    using that by (auto simp: BufferReader_read_def slice_def remaining_def Let_def)
  have rd1: "remaining r' < remaining r"
    if "BufferReader_read 1 r = (t, r')" and "readUInt8 t = Inr ty" for r t r' ty
    using that rd[of 1 r t r'] by (cases t) auto
  have rdsz: "remaining r' \<le> remaining r" if "readSizeBuffer r = Inr (n, r')" for r n r'
    using that rd[of 4 r]
    by (auto simp: readSizeBuffer_def Let_def split: prod.splits sum.splits)
  have consumes:
    "deserialize_deserialize_loop_dom (Inl (parse, r)) \<Longrightarrow>
       deserialize parse r = Inr (v, r') \<Longrightarrow> remaining r' < remaining r"
    "deserialize_deserialize_loop_dom (Inr (parse, i, len, acc, r)) \<Longrightarrow>
       deserialize_loop parse i len acc r = Inr (vs, r') \<Longrightarrow> remaining r' \<le> remaining r"
    for parse :: "JSString \<Rightarrow> 'j option" and r v r' i len acc vs
  proof (induction parse r and parse i len acc r arbitrary: v r' and vs r'
      rule: deserialize_deserialize_loop.pinduct)
    case (1 parse reader)
    obtain t r1 where rd0: "BufferReader_read 1 reader = (t, r1)"
      by (cases "BufferReader_read 1 reader")
    from 1(1,3) rd0 obtain ty where ty: "readUInt8 t = Inr ty"
      by (auto simp: deserialize.psimps split: sum.splits)
    have lt: "remaining r1 < remaining reader" using rd1[OF rd0 ty] .
    show ?case
    proof (cases "ty = 4")
      case True
      from 1(1,3) rd0 ty True obtain len r2 result where
        sz: "readSizeBuffer r1 = Inr (len, r2)" and
        lp: "deserialize_loop parse 0 len [] r2 = Inr (result, r')"
        by (auto simp: deserialize.psimps split: sum.splits prod.splits)
      have "remaining r' \<le> remaining r2"
        using 1(2)[OF refl rd0[symmetric] ty] True sz lp by auto
      with rdsz[OF sz] lt show ?thesis by simp
    next
      case False
      with 1(1,3) rd0 ty lt show ?thesis
        by (auto simp: deserialize.psimps split: sum.splits prod.splits if_splits option.splits
                 dest!: rdsz rd)
    qed
  next
    case (2 parse i len result reader)
    show ?case
    proof (cases "i < len")
      case True
      from 2(1,4) True obtain v reader' where
        d: "deserialize parse reader = Inr (v, reader')" and
        l: "deserialize_loop parse (Suc i) len (result @ [v]) reader' = Inr (vs, r')"
        by (auto simp: deserialize_loop.psimps split: sum.splits prod.splits)
      have "remaining reader' < remaining reader" using 2(2)[OF True d] .
      moreover have "remaining r' \<le> remaining reader'" using 2(3)[OF True d refl l] .
      ultimately show ?thesis by simp
    next
      case False
      with 2(1,4) show ?thesis by (simp add: deserialize_loop.psimps)
    qed
  qed
  show ?thesis
  proof (relation "measure (\<lambda>x. case x of Inl (p, r) \<Rightarrow> 2 * remaining r
                                     | Inr (p, i, len, acc, r) \<Rightarrow> 2 * remaining r + 1)",
      goal_cases)
    case 1
    show ?case by simp
  next
    case (2 parse reader x xa y xb xc xaa ya)
    then have "remaining y < remaining reader" "remaining ya \<le> remaining y"
      using rd1[of reader xa y xb] rdsz[of y xaa ya] by auto
    then show ?case by simp
  next
    case (3 parse i len result reader)
    then show ?case by simp
  next
    case (4 parse i len result reader x2 x y)
    then show ?case
      using consumes(1) by fastforce
  qed
qed

declare deserialize.simps [simp del] deserialize_loop.simps [simp del]

section \<open>\<^verbatim>\<open>ChannelServer\<close>\<close>

text \<open>
  The server half of a connection. Its state is the fields of the class; what it does
  to the outside (the frames it hands to \<^verbatim>\<open>protocol.send\<close>, the timers it arms
  with \<^verbatim>\<open>setTimeout\<close>, the handles it disposes, what it prints) is recorded in
  further fields, so that every method is a function from state to state. The type
  \<open>'a\<close> is the type of payloads (\<^verbatim>\<open>any\<close> in the source), \<open>'ctx\<close> the connection
  context, \<open>'n\<close> the type of numbers (\<^verbatim>\<open>timeoutDelay\<close> is a number).
\<close>

subsection \<open>Requests and responses\<close>

text \<open>
  \<^verbatim>\<open>IRawRequest\<close>: the two requests that name a channel
  (\<^verbatim>\<open>IRawPromiseRequest | IRawEventListenRequest\<close>, the type of a queued request)
  and the two that carry an id only.
\<close>

datatype 'a IRawChannelRequest =
    IRawPromiseRequest (req_id: nat) (channelName: string) (name: string) (arg: 'a)
  | IRawEventListenRequest (req_id: nat) (channelName: string) (name: string) (arg: 'a)

datatype 'a IRawRequest =
    ChannelRequest "'a IRawChannelRequest"
  | IRawPromiseCancelRequest nat
  | IRawEventDisposeRequest nat

text \<open>
  The \<^verbatim>\<open>data\<close> of a \<^verbatim>\<open>PromiseError\<close> response: \<^verbatim>\<open>{ message, name, stack }\<close>.
  The stack is \<^verbatim>\<open>undefined\<close>, an array of lines, or the thrown object's stack as it
  was.
\<close>

datatype 'a stack_field = StackUndefined | StackLines "string list" | StackRaw 'a

record 'a error_data =
  err_message :: string
  err_name :: string
  err_stack :: "'a stack_field"

datatype 'a IRawResponse =
    IRawInitializeResponse
  | IRawPromiseSuccessResponse nat 'a
  | IRawPromiseErrorResponse nat "'a error_data"
  | IRawPromiseErrorObjResponse nat 'a
  | IRawEventFireResponse nat 'a

subsection \<open>Channels and their promises\<close>

text \<open>
  What a service call can reject with: an \<^verbatim>\<open>Error\<close> instance (message, name,
  stack) or any other value. The \<^verbatim>\<open>stack\<close> of an error is tested for truth, then
  for a \<^verbatim>\<open>split\<close> method: \<open>NoStack\<close> is a stack that is \<^verbatim>\<open>undefined\<close> (or
  another false value that is not a string), \<open>StringStack\<close> a string, which is false
  when empty, and \<open>OtherStack\<close> a true value without \<^verbatim>\<open>split\<close>.

  \<^verbatim>\<open>IServerChannel.call\<close> either throws at once (\<open>Some\<close> of what it throws) or
  returns a promise (\<open>None\<close>); how that promise settles is an event of the
  environment. \<^verbatim>\<open>listen\<close> returns an event; forwarding its emissions is not
  modelled.
\<close>

datatype 'a thrown_stack = NoStack | StringStack string | OtherStack 'a

datatype 'a thrown = ErrorInstance string string "'a thrown_stack" | NonError 'a

datatype 'a settlement = Fulfilled 'a | Rejected "'a thrown"

record ('ctx, 'a) IServerChannel =
  call :: "'ctx \<Rightarrow> string \<Rightarrow> 'a \<Rightarrow> 'a thrown option"

subsection \<open>State\<close>

text \<open>
  A handle in \<^verbatim>\<open>activeRequests\<close> cancels the call or ends the subscription made
  for the request id it carries. \<^verbatim>\<open>activeRequests\<close> is a JavaScript \<^verbatim>\<open>Map\<close>,
  iterated in insertion order: an association list. \<^verbatim>\<open>protocolListener\<close> is
  \<open>True\<close> while the listener on \<^verbatim>\<open>protocol.onMessage\<close> is attached (it is
  \<^verbatim>\<open>null\<close> afterwards). \<open>timers\<close> holds the callbacks armed with
  \<^verbatim>\<open>setTimeout\<close> and not yet run or cleared, under the handle \<^verbatim>\<open>setTimeout\<close>
  returned; \<open>promises\<close> the service promises whose \<^verbatim>\<open>then\<close> callbacks are
  waiting, each with its outcome when that is already known; \<open>sent\<close> the responses
  passed to \<^verbatim>\<open>protocol.send\<close>; \<open>disposed\<close> the handles on which
  \<^verbatim>\<open>dispose()\<close> was called; \<open>console\<close> the lines of \<^verbatim>\<open>console.error\<close>.
\<close>

datatype disposable = CancelSource nat | EventSubscription nat

record 'a PendingRequest =
  request :: "'a IRawChannelRequest"
  timeoutTimer :: nat

datatype 'a timer_task = PendingTimeout "'a IRawChannelRequest" | FlushPending string

record ('ctx, 'a, 'n) ChannelServer =
  channels :: "string \<rightharpoonup> ('ctx, 'a) IServerChannel"
  activeRequests :: "(nat \<times> disposable) list"
  protocolListener :: bool
  pendingRequests :: "string \<rightharpoonup> 'a PendingRequest list"
  ctx :: 'ctx
  timeoutDelay :: 'n
  timers :: "nat \<rightharpoonup> 'a timer_task"
  nextTimer :: nat
  promises :: "('a IRawChannelRequest \<times> 'a settlement option) list"
  sent :: "'a IRawResponse list"
  disposed :: "disposable list"
  console :: "string list"

subsection \<open>What the language does\<close>

text \<open>
  Three things the class leaves to the language and to the codec are parameters of the
  model. \<open>canSerialize rt v\<close> holds when \<^verbatim>\<open>serialize(writer, v)\<close> returns for
  the payload \<open>v\<close>; it throws otherwise, as it does when \<^verbatim>\<open>JSON.stringify\<close>
  throws or returns no text. \<open>canStringify rt v\<close> holds when \<^verbatim>\<open>JSON.stringify\<close>
  returns for an object that has \<open>v\<close> as a property. \<open>Number_toString rt n\<close> is the
  text a template literal prints for the number \<open>n\<close>; \<open>'n\<close> is the type of numbers.

  \<open>split\<close> is \<^verbatim>\<open>String.prototype.split\<close> on a one-character separator.
\<close>

record ('a, 'n) runtime =
  canSerialize :: "'a \<Rightarrow> bool"
  canStringify :: "'a \<Rightarrow> bool"
  Number_toString :: "'n \<Rightarrow> string"

fun split :: "char \<Rightarrow> string \<Rightarrow> string list" where
  "split sep [] = [[]]"
| "split sep (c # cs) =
     (if c = sep then [] # split sep cs
      else (case split sep cs of [] \<Rightarrow> [[c]] | l # ls \<Rightarrow> (c # l) # ls))"

subsection \<open>Methods\<close>

text \<open>
  \<^verbatim>\<open>sendResponse\<close> picks the header and the body of a response and calls
  \<^verbatim>\<open>send\<close>, which serializes the header, then the body, and passes the buffer to
  \<^verbatim>\<open>sendBuffer\<close>. Only \<^verbatim>\<open>sendBuffer\<close> catches exceptions: an exception of
  \<^verbatim>\<open>serialize\<close> leaves \<^verbatim>\<open>send\<close> and \<^verbatim>\<open>sendResponse\<close>, which is the
  result \<open>None\<close> here, and nothing is passed to the transport.

  The header is an array of one or two numbers, which the codec always writes. The
  body is absent (\<^verbatim>\<open>undefined\<close>, one tag byte), a payload, or the object
  \<^verbatim>\<open>{ message, name, stack }\<close>, which goes through \<^verbatim>\<open>JSON.stringify\<close>: its
  message and its name are strings, and so is its stack unless it is the raw stack of
  the error.

  \<^verbatim>\<open>sendBuffer\<close> swallows what \<^verbatim>\<open>protocol.send\<close> throws: the response is
  appended to \<open>sent\<close>, the frames passed to \<^verbatim>\<open>protocol.send\<close>.
\<close>

datatype 'a body = Absent | Payload 'a | ErrorObject "'a error_data"

definition serializes :: "('a, 'n) runtime \<Rightarrow> 'a body \<Rightarrow> bool" where
  "serializes rt b =
     (case b of
        Absent \<Rightarrow> True
      | Payload d \<Rightarrow> canSerialize rt d
      | ErrorObject e \<Rightarrow> (case err_stack e of StackRaw v \<Rightarrow> canStringify rt v | _ \<Rightarrow> True))"

definition sendBuffer ::
  "'a IRawResponse \<Rightarrow> ('ctx, 'a, 'n) ChannelServer \<Rightarrow> ('ctx, 'a, 'n) ChannelServer" where
  "sendBuffer message s = s\<lparr>sent := sent s @ [message]\<rparr>"

definition send ::
  "('a, 'n) runtime \<Rightarrow> 'a IRawResponse \<Rightarrow> 'a body \<Rightarrow> ('ctx, 'a, 'n) ChannelServer
     \<Rightarrow> ('ctx, 'a, 'n) ChannelServer option" where
  "send rt message b s = (if serializes rt b then Some (sendBuffer message s) else None)"

definition sendResponse ::
  "('a, 'n) runtime \<Rightarrow> 'a IRawResponse \<Rightarrow> ('ctx, 'a, 'n) ChannelServer
     \<Rightarrow> ('ctx, 'a, 'n) ChannelServer option" where
  "sendResponse rt response s =
     (case response of
        IRawInitializeResponse \<Rightarrow> send rt response Absent s
      | IRawPromiseSuccessResponse i data \<Rightarrow> send rt response (Payload data) s
      | IRawPromiseErrorResponse i data \<Rightarrow> send rt response (ErrorObject data) s
      | IRawPromiseErrorObjResponse i data \<Rightarrow> send rt response (Payload data) s
      | IRawEventFireResponse i data \<Rightarrow> send rt response (Payload data) s)"

definition setTimeout ::
  "'a timer_task \<Rightarrow> ('ctx, 'a, 'n) ChannelServer \<Rightarrow> nat \<times> ('ctx, 'a, 'n) ChannelServer" where
  "setTimeout task s =
     (nextTimer s, s\<lparr>timers := (timers s)(nextTimer s \<mapsto> task), nextTimer := Suc (nextTimer s)\<rparr>)"

definition clearTimeout ::
  "nat \<Rightarrow> ('ctx, 'a, 'n) ChannelServer \<Rightarrow> ('ctx, 'a, 'n) ChannelServer" where
  "clearTimeout timer s = s\<lparr>timers := (timers s)(timer := None)\<rparr>"

text \<open>
  The constructor attaches the listener and sends \<^verbatim>\<open>Initialize\<close>: a header and no
  body, so that \<^verbatim>\<open>send\<close> gets to \<^verbatim>\<open>sendBuffer\<close>.
\<close>

definition ChannelServer_new :: "'ctx \<Rightarrow> 'n \<Rightarrow> ('ctx, 'a, 'n) ChannelServer" where
  "ChannelServer_new c delay =
     sendBuffer IRawInitializeResponse
       \<lparr>channels = Map.empty, activeRequests = [], protocolListener = True,
        pendingRequests = Map.empty, ctx = c, timeoutDelay = delay,
        timers = Map.empty, nextTimer = 0, promises = [], sent = [], disposed = [],
        console = []\<rparr>"

definition getServerChannel ::
  "string \<Rightarrow> ('ctx, 'a, 'n) ChannelServer \<Rightarrow> ('ctx, 'a) IServerChannel option" where
  "getServerChannel cn s = channels s cn"

text \<open>
  \<^verbatim>\<open>registerChannel\<close> stores the channel and defers the drain of the pending
  queue with \<^verbatim>\<open>setTimeout(..., 0)\<close>.
\<close>

definition registerChannel ::
  "string \<Rightarrow> ('ctx, 'a) IServerChannel \<Rightarrow> ('ctx, 'a, 'n) ChannelServer
     \<Rightarrow> ('ctx, 'a, 'n) ChannelServer" where
  "registerChannel cn channel s =
     snd (setTimeout (FlushPending cn) (s\<lparr>channels := (channels s)(cn \<mapsto> channel)\<rparr>))"

text \<open>
  The callback that \<^verbatim>\<open>collectPendingRequest\<close> arms: it prints, and for a
  \<^verbatim>\<open>Promise\<close> request it answers \<^verbatim>\<open>PromiseError\<close>. It does not touch
  \<^verbatim>\<open>pendingRequests\<close>. An exception of \<^verbatim>\<open>sendResponse\<close> would end the
  callback after the print.
\<close>

definition pendingTimeout ::
  "('a, 'n) runtime \<Rightarrow> 'a IRawChannelRequest \<Rightarrow> ('ctx, 'a, 'n) ChannelServer
     \<Rightarrow> ('ctx, 'a, 'n) ChannelServer" where
  "pendingTimeout rt req s =
     (let s1 = s\<lparr>console := console s @ [''Unknown channel: '' @ channelName req]\<rparr>
      in case req of
           IRawPromiseRequest i cn n a \<Rightarrow>
             (case sendResponse rt
                     (IRawPromiseErrorResponse i
                       \<lparr>err_message = ''Channel name '' @ [CHR 0x27] @ cn @ [CHR 0x27]
                            @ '' timed out after '' @ Number_toString rt (timeoutDelay s1) @ ''ms'',
                        err_name = ''Unknown channel'',
                        err_stack = StackUndefined\<rparr>) s1 of
                None \<Rightarrow> s1
              | Some s2 \<Rightarrow> s2)
         | IRawEventListenRequest i cn n a \<Rightarrow> s1)"

definition collectPendingRequest ::
  "'a IRawChannelRequest \<Rightarrow> ('ctx, 'a, 'n) ChannelServer \<Rightarrow> ('ctx, 'a, 'n) ChannelServer" where
  "collectPendingRequest req s =
     (let queue = (case pendingRequests s (channelName req) of None \<Rightarrow> [] | Some q \<Rightarrow> q);
          (timer, s1) = setTimeout (PendingTimeout req) s
      in s1\<lparr>pendingRequests := (pendingRequests s1)
              (channelName req \<mapsto> queue @ [\<lparr>request = req, timeoutTimer = timer\<rparr>])\<rparr>)"

text \<open>
  The two callbacks \<^verbatim>\<open>onPromise\<close> passes to \<^verbatim>\<open>promise.then\<close>, and
  \<^verbatim>\<open>onPromise\<close> itself: an exception of \<^verbatim>\<open>channel.call\<close> becomes a rejected
  promise. In a callback, an exception of \<^verbatim>\<open>sendResponse\<close> ends the callback
  before \<^verbatim>\<open>activeRequests.delete\<close>; it rejects the promise that \<^verbatim>\<open>then\<close>
  returned, which nobody holds.
\<close>

definition onPromise_fulfilled ::
  "('a, 'n) runtime \<Rightarrow> 'a IRawChannelRequest \<Rightarrow> 'a \<Rightarrow> ('ctx, 'a, 'n) ChannelServer
     \<Rightarrow> ('ctx, 'a, 'n) ChannelServer" where
  "onPromise_fulfilled rt req data s =
     (case sendResponse rt (IRawPromiseSuccessResponse (req_id req) data) s of
        None \<Rightarrow> s
      | Some s1 \<Rightarrow> s1\<lparr>activeRequests := AList.delete (req_id req) (activeRequests s1)\<rparr>)"

definition onPromise_rejected ::
  "('a, 'n) runtime \<Rightarrow> 'a IRawChannelRequest \<Rightarrow> 'a thrown \<Rightarrow> ('ctx, 'a, 'n) ChannelServer
     \<Rightarrow> ('ctx, 'a, 'n) ChannelServer" where
  "onPromise_rejected rt req err s =
     (case (case err of
              ErrorInstance m n st \<Rightarrow>
                sendResponse rt
                  (IRawPromiseErrorResponse (req_id req)
                    \<lparr>err_message = m, err_name = n,
                     err_stack = (case st of
                                NoStack \<Rightarrow> StackUndefined
                              | StringStack str \<Rightarrow>
                                  if str = [] then StackUndefined
                                  else StackLines (split (CHR 0x0A) str)
                              | OtherStack v \<Rightarrow> StackRaw v)\<rparr>) s
            | NonError v \<Rightarrow>
                sendResponse rt (IRawPromiseErrorObjResponse (req_id req) v) s) of
        None \<Rightarrow> s
      | Some s1 \<Rightarrow> s1\<lparr>activeRequests := AList.delete (req_id req) (activeRequests s1)\<rparr>)"

definition onPromise ::
  "'a IRawChannelRequest \<Rightarrow> ('ctx, 'a, 'n) ChannelServer \<Rightarrow> ('ctx, 'a, 'n) ChannelServer" where
  "onPromise req s =
     (case channels s (channelName req) of
        None \<Rightarrow> collectPendingRequest req s
      | Some channel \<Rightarrow>
          (let promise = (case call channel (ctx s) (name req) (arg req) of
                            None \<Rightarrow> None
                          | Some err \<Rightarrow> Some (Rejected err));
               s1 = s\<lparr>promises := promises s @ [(req, promise)]\<rparr>
           in s1\<lparr>activeRequests :=
                   AList.update (req_id req) (CancelSource (req_id req)) (activeRequests s1)\<rparr>))"

definition onEventListen ::
  "'a IRawChannelRequest \<Rightarrow> ('ctx, 'a, 'n) ChannelServer \<Rightarrow> ('ctx, 'a, 'n) ChannelServer" where
  "onEventListen req s =
     (case channels s (channelName req) of
        None \<Rightarrow> collectPendingRequest req s
      | Some channel \<Rightarrow>
          s\<lparr>activeRequests :=
               AList.update (req_id req) (EventSubscription (req_id req)) (activeRequests s)\<rparr>)"

definition disposeActiveRequest ::
  "nat \<Rightarrow> ('ctx, 'a, 'n) ChannelServer \<Rightarrow> ('ctx, 'a, 'n) ChannelServer" where
  "disposeActiveRequest i s =
     (case map_of (activeRequests s) i of
        None \<Rightarrow> s
      | Some d \<Rightarrow> s\<lparr>disposed := disposed s @ [d],
                      activeRequests := AList.delete i (activeRequests s)\<rparr>)"

text \<open>
  \<^verbatim>\<open>flushPendingRequests\<close>: the body of its loop is \<open>redispatch\<close>. The loop runs
  over the queue as it is when the drain starts; the drain is only ever scheduled by
  \<^verbatim>\<open>registerChannel\<close>, after which the channel is registered, so the loop body
  does not queue anything again.
\<close>

definition redispatch ::
  "'a PendingRequest \<Rightarrow> ('ctx, 'a, 'n) ChannelServer \<Rightarrow> ('ctx, 'a, 'n) ChannelServer" where
  "redispatch p s =
     (let s1 = clearTimeout (timeoutTimer p) s
      in case request p of
           IRawPromiseRequest i cn n a \<Rightarrow> onPromise (request p) s1
         | IRawEventListenRequest i cn n a \<Rightarrow> onEventListen (request p) s1)"

definition flushPendingRequests ::
  "string \<Rightarrow> ('ctx, 'a, 'n) ChannelServer \<Rightarrow> ('ctx, 'a, 'n) ChannelServer" where
  "flushPendingRequests cn s =
     (case pendingRequests s cn of
        None \<Rightarrow> s
      | Some requests \<Rightarrow>
          (let s1 = fold redispatch requests s
           in s1\<lparr>pendingRequests := (pendingRequests s1)(cn := None)\<rparr>))"

text \<open>
  \<^verbatim>\<open>onRawMessage\<close>, after the header and body have been decoded into a request.
\<close>

definition onRawMessage ::
  "'a IRawRequest \<Rightarrow> ('ctx, 'a, 'n) ChannelServer \<Rightarrow> ('ctx, 'a, 'n) ChannelServer" where
  "onRawMessage msg s =
     (case msg of
        ChannelRequest (IRawPromiseRequest i cn n a) \<Rightarrow> onPromise (IRawPromiseRequest i cn n a) s
      | ChannelRequest (IRawEventListenRequest i cn n a) \<Rightarrow>
          onEventListen (IRawEventListenRequest i cn n a) s
      | IRawPromiseCancelRequest i \<Rightarrow> disposeActiveRequest i s
      | IRawEventDisposeRequest i \<Rightarrow> disposeActiveRequest i s)"

definition dispose :: "('ctx, 'a, 'n) ChannelServer \<Rightarrow> ('ctx, 'a, 'n) ChannelServer" where
  "dispose s =
     (let s1 = (if protocolListener s then s\<lparr>protocolListener := False\<rparr> else s);
          s2 = fold (\<lambda>(i, d) s'. s'\<lparr>disposed := disposed s' @ [d]\<rparr>) (activeRequests s1) s1
      in s2\<lparr>activeRequests := []\<rparr>)"

subsection \<open>Events of the environment\<close>

text \<open>
  A timer that fires runs its callback once and is gone; a promise that settles runs one
  of its two callbacks (a promise that is already rejected keeps that outcome). Real
  time is not modelled: an armed timer may fire at any moment. A message arrives only
  while the listener is attached.
\<close>

definition timerFires ::
  "('a, 'n) runtime \<Rightarrow> nat \<Rightarrow> ('ctx, 'a, 'n) ChannelServer \<Rightarrow> ('ctx, 'a, 'n) ChannelServer" where
  "timerFires rt t s =
     (case timers s t of
        None \<Rightarrow> s
      | Some task \<Rightarrow>
          (let s1 = s\<lparr>timers := (timers s)(t := None)\<rparr>
           in case task of
                PendingTimeout req \<Rightarrow> pendingTimeout rt req s1
              | FlushPending cn \<Rightarrow> flushPendingRequests cn s1))"

definition promiseSettles ::
  "('a, 'n) runtime \<Rightarrow> nat \<Rightarrow> 'a settlement \<Rightarrow> ('ctx, 'a, 'n) ChannelServer
     \<Rightarrow> ('ctx, 'a, 'n) ChannelServer" where
  "promiseSettles rt k outcome s =
     (if k < length (promises s) then
        (let (req, fixed) = promises s ! k;
             s1 = s\<lparr>promises := take k (promises s) @ drop (Suc k) (promises s)\<rparr>
         in case (case fixed of None \<Rightarrow> outcome | Some known \<Rightarrow> known) of
              Fulfilled data \<Rightarrow> onPromise_fulfilled rt req data s1
            | Rejected err \<Rightarrow> onPromise_rejected rt req err s1)
      else s)"

datatype ('ctx, 'a) server_event =
    Receives "'a IRawRequest"
  | Registers string "('ctx, 'a) IServerChannel"
  | TimerFires nat
  | PromiseSettles nat "'a settlement"
  | Disposes

fun server_step ::
  "('a, 'n) runtime \<Rightarrow> ('ctx, 'a) server_event \<Rightarrow> ('ctx, 'a, 'n) ChannelServer
     \<Rightarrow> ('ctx, 'a, 'n) ChannelServer" where
  "server_step rt (Receives msg) s = (if protocolListener s then onRawMessage msg s else s)"
| "server_step rt (Registers cn channel) s = registerChannel cn channel s"
| "server_step rt (TimerFires t) s = timerFires rt t s"
| "server_step rt (PromiseSettles k outcome) s = promiseSettles rt k outcome s"
| "server_step rt Disposes s = dispose s"

definition server_run ::
  "('a, 'n) runtime \<Rightarrow> ('ctx, 'a) server_event list \<Rightarrow> ('ctx, 'a, 'n) ChannelServer
     \<Rightarrow> ('ctx, 'a, 'n) ChannelServer" where
  "server_run rt es s = fold (server_step rt) es s"

section \<open>\<^verbatim>\<open>ChannelClient\<close>\<close>

text \<open>
  The client half of a connection, in the same style: the fields of the class, the
  variables its closures capture, and a record of what it does to the outside.
\<close>

subsection \<open>State\<close>

text \<open>
  The handler stored under an id is one of the two closures of the class: the one
  \<^verbatim>\<open>requestPromise\<close> builds or the one \<^verbatim>\<open>requestEvent\<close> builds. A member of
  \<^verbatim>\<open>activeRequests\<close> is the disposable of a call or the emitter of an event, each
  named by its request id. A promise is settled by calling its \<^verbatim>\<open>c\<close> (resolve) or
  \<^verbatim>\<open>e\<close> (reject); \<open>settled\<close> lists those calls.

  \<open>requestOf\<close> is the \<^verbatim>\<open>request\<close> a call to \<^verbatim>\<open>requestPromise\<close> or
  \<^verbatim>\<open>requestEvent\<close> built; \<open>uninitializedPromise c i\<close> holds while the variable
  \<^verbatim>\<open>uninitializedPromise\<close> of request \<open>i\<close> is not \<^verbatim>\<open>null\<close>, that is, while
  the wait for initialization is pending; \<open>didInitialize\<close> counts the calls of
  \<^verbatim>\<open>_onDidInitialize.fire()\<close>; \<open>sentC\<close> lists the requests passed to
  \<^verbatim>\<open>protocol.send\<close>; \<open>fired\<close> the responses whose data an event emitter fired.

  Modelled from the spec: the class \<^verbatim>\<open>Emitter\<close> (\<^verbatim>\<open>common/event\<close>) is not part
  of the sources at hand. The life of an event is tied to its number of subscribers,
  \<open>listenerCount\<close>: the emitter calls \<^verbatim>\<open>onFirstListenerAdd\<close> when the first one is
  added and \<^verbatim>\<open>onLastListenerRemove\<close> when the last one is removed.
\<close>

datatype State = Uninitialized | Idle

datatype IHandler = PromiseHandler | EventHandler

datatype client_disposable = CallDisposable nat | EventEmitter nat

datatype 'a promise_result =
    Resolve 'a
  | RejectError "'a error_data"
  | RejectObj 'a
  | RejectCanceled

record 'a ChannelClient =
  state :: State
  activeRequestsC :: "client_disposable list"
  handlers :: "nat \<rightharpoonup> IHandler"
  lastRequestId :: nat
  protocolListenerC :: bool
  requestOf :: "nat \<rightharpoonup> 'a IRawChannelRequest"
  uninitializedPromise :: "nat \<Rightarrow> bool"
  listenerCount :: "nat \<Rightarrow> nat"
  didInitialize :: nat
  sentC :: "'a IRawRequest list"
  settled :: "(nat \<times> 'a promise_result) list"
  fired :: "(nat \<times> 'a IRawResponse) list"
  disposedC :: "client_disposable list"

definition ChannelClient_new :: "'a ChannelClient" where
  "ChannelClient_new =
     \<lparr>state = Uninitialized, activeRequestsC = [], handlers = Map.empty, lastRequestId = 0,
      protocolListenerC = True, requestOf = Map.empty, uninitializedPromise = (\<lambda>i. False),
      listenerCount = (\<lambda>i. 0), didInitialize = 0, sentC = [], settled = [], fired = [],
      disposedC = []\<rparr>"

text \<open>\<^verbatim>\<open>Set.add\<close>: a JavaScript set keeps insertion order and no duplicates.\<close>

definition set_add :: "'b \<Rightarrow> 'b list \<Rightarrow> 'b list" where
  "set_add x xs = (if x \<in> set xs then xs else xs @ [x])"

subsection \<open>Methods and closures\<close>

text \<open>
  \<^verbatim>\<open>sendRequest\<close>, \<^verbatim>\<open>send\<close> and \<^verbatim>\<open>sendBuffer\<close> are those of the server
  side again. The header of a request is an array of numbers and strings, which the
  codec always writes; the body is the argument of the call or of the event, and is
  absent for \<^verbatim>\<open>PromiseCancel\<close> and \<^verbatim>\<open>EventDispose\<close>. An exception of
  \<^verbatim>\<open>serialize\<close> is the result \<open>None\<close>; \<open>sentC\<close> lists what was passed to
  \<^verbatim>\<open>protocol.send\<close>.
\<close>

definition ChannelClient_sendBuffer ::
  "'a IRawRequest \<Rightarrow> 'a ChannelClient \<Rightarrow> 'a ChannelClient" where
  "ChannelClient_sendBuffer message c = c\<lparr>sentC := sentC c @ [message]\<rparr>"

definition ChannelClient_send ::
  "('a, 'n) runtime \<Rightarrow> 'a IRawRequest \<Rightarrow> 'a body \<Rightarrow> 'a ChannelClient
     \<Rightarrow> 'a ChannelClient option" where
  "ChannelClient_send rt message b c =
     (if serializes rt b then Some (ChannelClient_sendBuffer message c) else None)"

definition sendRequest ::
  "('a, 'n) runtime \<Rightarrow> 'a IRawRequest \<Rightarrow> 'a ChannelClient \<Rightarrow> 'a ChannelClient option" where
  "sendRequest rt req c =
     (case req of
        ChannelRequest r \<Rightarrow> ChannelClient_send rt req (Payload (arg r)) c
      | IRawPromiseCancelRequest i \<Rightarrow> ChannelClient_send rt req Absent c
      | IRawEventDisposeRequest i \<Rightarrow> ChannelClient_send rt req Absent c)"

text \<open>
  \<^verbatim>\<open>requestPromise\<close> takes its id first, then looks at the cancellation token
  (\<open>isCancellationRequested\<close>): a cancelled token gives a rejected promise and nothing
  else. Otherwise the wait for initialization starts and the disposable of the call
  joins \<^verbatim>\<open>activeRequests\<close>. The second look at the token, inside the executor of the
  promise, sees what the first one saw.
\<close>

definition requestPromise ::
  "string \<Rightarrow> string \<Rightarrow> 'a \<Rightarrow> bool \<Rightarrow> 'a ChannelClient \<Rightarrow> 'a ChannelClient" where
  "requestPromise cn n a isCancellationRequested c =
     (let i = lastRequestId c;
          c1 = c\<lparr>lastRequestId := Suc i\<rparr>
      in if isCancellationRequested then c1\<lparr>settled := settled c1 @ [(i, RejectCanceled)]\<rparr>
         else c1\<lparr>requestOf := (requestOf c1)(i \<mapsto> IRawPromiseRequest i cn n a),
                 uninitializedPromise := (uninitializedPromise c1)(i := True),
                 activeRequestsC := set_add (CallDisposable i) (activeRequestsC c1)\<rparr>)"

text \<open>
  \<^verbatim>\<open>requestEvent\<close> takes an id, creates the emitter and installs the handler.
  Nothing is sent before the first subscriber.
\<close>

definition requestEvent :: "string \<Rightarrow> string \<Rightarrow> 'a \<Rightarrow> 'a ChannelClient \<Rightarrow> 'a ChannelClient" where
  "requestEvent cn n a c =
     (let i = lastRequestId c
      in c\<lparr>lastRequestId := Suc i,
            requestOf := (requestOf c)(i \<mapsto> IRawEventListenRequest i cn n a),
            handlers := (handlers c)(i \<mapsto> EventHandler)\<rparr>)"

text \<open>
  The continuation of \<^verbatim>\<open>uninitializedPromise.then\<close>, for a call and for an event.
  Modelled from the spec: \<^verbatim>\<open>createCancelablePromise\<close> (\<^verbatim>\<open>common/async\<close>) is
  not part of the sources at hand. The continuation runs once, after the client got to
  \<^verbatim>\<open>Idle\<close>, unless the wait was cancelled before. Its last statement is the call
  of \<^verbatim>\<open>sendRequest\<close>: an exception there leaves what was done before as it is.
\<close>

definition whenInitialized_then ::
  "('a, 'n) runtime \<Rightarrow> nat \<Rightarrow> 'a ChannelClient \<Rightarrow> 'a ChannelClient" where
  "whenInitialized_then rt i c =
     (if uninitializedPromise c i \<and> state c = Idle then
        (case requestOf c i of
           None \<Rightarrow> c
         | Some (IRawPromiseRequest j cn n a) \<Rightarrow>
             (let c1 = c\<lparr>uninitializedPromise := (uninitializedPromise c)(i := False),
                         handlers := (handlers c)(i \<mapsto> PromiseHandler)\<rparr>
              in case sendRequest rt (ChannelRequest (IRawPromiseRequest j cn n a)) c1 of
                   None \<Rightarrow> c1
                 | Some c2 \<Rightarrow> c2)
         | Some (IRawEventListenRequest j cn n a) \<Rightarrow>
             (let c1 = c\<lparr>uninitializedPromise := (uninitializedPromise c)(i := False),
                         activeRequestsC := set_add (EventEmitter i) (activeRequestsC c)\<rparr>
              in case sendRequest rt (ChannelRequest (IRawEventListenRequest j cn n a)) c1 of
                   None \<Rightarrow> c1
                 | Some c2 \<Rightarrow> c2))
      else c)"

text \<open>
  The \<^verbatim>\<open>cancel\<close> closure of \<^verbatim>\<open>requestPromise\<close>, and the two callbacks of the
  emitter of an event. The requests \<^verbatim>\<open>PromiseCancel\<close> and \<^verbatim>\<open>EventDispose\<close>
  have no body, so that \<^verbatim>\<open>sendRequest\<close> gets to \<^verbatim>\<open>sendBuffer\<close>.
\<close>

definition cancel :: "nat \<Rightarrow> 'a ChannelClient \<Rightarrow> 'a ChannelClient" where
  "cancel i c =
     (let c1 = (if uninitializedPromise c i
                then c\<lparr>uninitializedPromise := (uninitializedPromise c)(i := False)\<rparr>
                else ChannelClient_sendBuffer (IRawPromiseCancelRequest i) c)
      in c1\<lparr>settled := settled c1 @ [(i, RejectCanceled)]\<rparr>)"

definition onFirstListenerAdd :: "nat \<Rightarrow> 'a ChannelClient \<Rightarrow> 'a ChannelClient" where
  "onFirstListenerAdd i c = c\<lparr>uninitializedPromise := (uninitializedPromise c)(i := True)\<rparr>"

definition onLastListenerRemove :: "nat \<Rightarrow> 'a ChannelClient \<Rightarrow> 'a ChannelClient" where
  "onLastListenerRemove i c =
     (if uninitializedPromise c i
      then c\<lparr>uninitializedPromise := (uninitializedPromise c)(i := False)\<rparr>
      else ChannelClient_sendBuffer (IRawEventDisposeRequest i)
             (c\<lparr>activeRequestsC := removeAll (EventEmitter i) (activeRequestsC c)\<rparr>))"

text \<open>
  The two handlers. The one of a call deletes itself on a terminal response and settles
  the promise; any other response falls through its switch. The one of an event fires
  the emitter with the data of whatever response it is given.
\<close>

definition handler :: "IHandler \<Rightarrow> nat \<Rightarrow> 'a IRawResponse \<Rightarrow> 'a ChannelClient \<Rightarrow> 'a ChannelClient" where
  "handler h i response c =
     (case h of
        PromiseHandler \<Rightarrow>
          (case response of
             IRawPromiseSuccessResponse j data \<Rightarrow>
               c\<lparr>handlers := (handlers c)(i := None), settled := settled c @ [(i, Resolve data)]\<rparr>
           | IRawPromiseErrorResponse j data \<Rightarrow>
               c\<lparr>handlers := (handlers c)(i := None), settled := settled c @ [(i, RejectError data)]\<rparr>
           | IRawPromiseErrorObjResponse j data \<Rightarrow>
               c\<lparr>handlers := (handlers c)(i := None), settled := settled c @ [(i, RejectObj data)]\<rparr>
           | _ \<Rightarrow> c)
      | EventHandler \<Rightarrow> c\<lparr>fired := fired c @ [(i, response)]\<rparr>)"

fun response_id :: "'a IRawResponse \<Rightarrow> nat option" where
  "response_id IRawInitializeResponse = None"
| "response_id (IRawPromiseSuccessResponse i d) = Some i"
| "response_id (IRawPromiseErrorResponse i d) = Some i"
| "response_id (IRawPromiseErrorObjResponse i d) = Some i"
| "response_id (IRawEventFireResponse i d) = Some i"

definition onResponse :: "'a IRawResponse \<Rightarrow> 'a ChannelClient \<Rightarrow> 'a ChannelClient" where
  "onResponse response c =
     (case response of
        IRawInitializeResponse \<Rightarrow> c\<lparr>state := Idle, didInitialize := Suc (didInitialize c)\<rparr>
      | _ \<Rightarrow>
          (case response_id response of
             None \<Rightarrow> c
           | Some i \<Rightarrow>
               (case handlers c i of
                  None \<Rightarrow> c
                | Some h \<Rightarrow> handler h i response c)))"

text \<open>The callback of \<^verbatim>\<open>result.finally\<close>.\<close>

definition promise_finally :: "nat \<Rightarrow> 'a ChannelClient \<Rightarrow> 'a ChannelClient" where
  "promise_finally i c = c\<lparr>activeRequestsC := removeAll (CallDisposable i) (activeRequestsC c)\<rparr>"

definition subscribe :: "nat \<Rightarrow> 'a ChannelClient \<Rightarrow> 'a ChannelClient" where
  "subscribe i c =
     (let c1 = (if listenerCount c i = 0 then onFirstListenerAdd i c else c)
      in c1\<lparr>listenerCount := (listenerCount c1)(i := Suc (listenerCount c1 i))\<rparr>)"

definition unsubscribe :: "nat \<Rightarrow> 'a ChannelClient \<Rightarrow> 'a ChannelClient" where
  "unsubscribe i c =
     (if listenerCount c i = 0 then c
      else (let c1 = c\<lparr>listenerCount := (listenerCount c)(i := listenerCount c i - 1)\<rparr>
            in if listenerCount c1 i = 0 then onLastListenerRemove i c1 else c1))"

definition dispose_handle :: "client_disposable \<Rightarrow> 'a ChannelClient \<Rightarrow> 'a ChannelClient" where
  "dispose_handle d c =
     (let c1 = (case d of CallDisposable i \<Rightarrow> cancel i c | EventEmitter i \<Rightarrow> c)
      in c1\<lparr>disposedC := disposedC c1 @ [d]\<rparr>)"

definition client_dispose :: "'a ChannelClient \<Rightarrow> 'a ChannelClient" where
  "client_dispose c =
     (let c1 = (if protocolListenerC c then c\<lparr>protocolListenerC := False\<rparr> else c);
          c2 = fold dispose_handle (activeRequestsC c1) c1
      in c2\<lparr>activeRequestsC := []\<rparr>)"

subsection \<open>Events of the environment\<close>

text \<open>
  What can happen to a client: a caller uses a channel proxy (\<open>Calls\<close>, \<open>Listens\<close>),
  subscribes to or unsubscribes from the event of request \<open>i\<close>, the wait of request
  \<open>i\<close> ends, the call \<open>i\<close> is cancelled through its token, its promise runs its
  \<^verbatim>\<open>finally\<close> callback, a response arrives, the client is disposed.
\<close>

datatype 'a client_event =
    Calls string string 'a bool
  | Listens string string 'a
  | Subscribes nat
  | Unsubscribes nat
  | Initialized nat
  | Cancels nat
  | Finalizes nat
  | ReceivesResponse "'a IRawResponse"
  | ClientDisposes

definition isPromise :: "'a ChannelClient \<Rightarrow> nat \<Rightarrow> bool" where
  "isPromise c i = (case requestOf c i of Some (IRawPromiseRequest j cn n a) \<Rightarrow> True | _ \<Rightarrow> False)"

definition isEvent :: "'a ChannelClient \<Rightarrow> nat \<Rightarrow> bool" where
  "isEvent c i = (case requestOf c i of Some (IRawEventListenRequest j cn n a) \<Rightarrow> True | _ \<Rightarrow> False)"

fun client_step ::
  "('a, 'n) runtime \<Rightarrow> 'a client_event \<Rightarrow> 'a ChannelClient \<Rightarrow> 'a ChannelClient" where
  "client_step rt (Calls cn n a cancelled) c = requestPromise cn n a cancelled c"
| "client_step rt (Listens cn n a) c = requestEvent cn n a c"
| "client_step rt (Subscribes i) c = (if isEvent c i then subscribe i c else c)"
| "client_step rt (Unsubscribes i) c = (if isEvent c i then unsubscribe i c else c)"
| "client_step rt (Initialized i) c = whenInitialized_then rt i c"
| "client_step rt (Cancels i) c = (if isPromise c i then cancel i c else c)"
| "client_step rt (Finalizes i) c =
     (if isPromise c i \<and> i \<in> fst ` set (settled c) then promise_finally i c else c)"
| "client_step rt (ReceivesResponse r) c = (if protocolListenerC c then onResponse r c else c)"
| "client_step rt ClientDisposes c = client_dispose c"

definition client_run ::
  "('a, 'n) runtime \<Rightarrow> 'a client_event list \<Rightarrow> 'a ChannelClient \<Rightarrow> 'a ChannelClient" where
  "client_run rt es c = fold (client_step rt) es c"

section \<open>\<^verbatim>\<open>IPCServer\<close>\<close>

text \<open>
  The hub. A \<^verbatim>\<open>Connection\<close> is an object: the set \<^verbatim>\<open>_connections\<close> holds
  references to connections, and so do the closures the constructor registers on
  \<^verbatim>\<open>onDidClientDisconnect\<close>. \<open>objects\<close> is the store of those objects;
  \<open>connections\<close> lists the references in the set. \<open>hub_channels\<close> is the
  \<^verbatim>\<open>Map\<close> \<^verbatim>\<open>channels\<close>, \<open>connectionsChanged\<close> the connections
  \<^verbatim>\<open>_onDidChangeConnections\<close> was fired with.
\<close>

record ('ctx, 'a, 'n) Connection =
  channelServer :: "('ctx, 'a, 'n) ChannelServer"
  channelClient :: "'a ChannelClient"
  connection_ctx :: 'ctx

record ('ctx, 'a, 'n) IPCServer =
  hub_channels :: "(string \<times> ('ctx, 'a) IServerChannel) list"
  connections :: "nat list"
  objects :: "nat \<rightharpoonup> ('ctx, 'a, 'n) Connection"
  nextConnection :: nat
  changeEmitterDisposed :: bool
  connectionsChanged :: "nat list"

definition IPCServer_new :: "('ctx, 'a, 'n) IPCServer" where
  "IPCServer_new =
     \<lparr>hub_channels = [], connections = [], objects = Map.empty, nextConnection = 0,
      changeEmitterDisposed = False, connectionsChanged = []\<rparr>"

text \<open>
  The body of the \<^verbatim>\<open>onFirstMessage\<close> listener of the constructor, once the first
  message has been decoded into the context \<open>c\<close>: the new \<^verbatim>\<open>ChannelServer\<close> has the
  default delay of 1000.
\<close>

definition onFirstMessage ::
  "'ctx \<Rightarrow> ('ctx, 'a, 'n::numeral) IPCServer \<Rightarrow> ('ctx, 'a, 'n) IPCServer" where
  "onFirstMessage c h =
     (let server = fold (\<lambda>(n, channel). registerChannel n channel) (hub_channels h)
                     (ChannelServer_new c 1000);
          connection = \<lparr>channelServer = server, channelClient = ChannelClient_new,
                        connection_ctx = c\<rparr>;
          k = nextConnection h
      in h\<lparr>objects := (objects h)(k \<mapsto> connection),
            nextConnection := Suc k,
            connections := set_add k (connections h),
            connectionsChanged := connectionsChanged h @ [k]\<rparr>)"

text \<open>The listener the constructor registers on \<^verbatim>\<open>onDidClientDisconnect\<close>.\<close>

definition onDidClientDisconnect :: "nat \<Rightarrow> ('ctx, 'a, 'n) IPCServer \<Rightarrow> ('ctx, 'a, 'n) IPCServer" where
  "onDidClientDisconnect k h =
     (case objects h k of
        None \<Rightarrow> h
      | Some connection \<Rightarrow>
          h\<lparr>objects := (objects h)(k \<mapsto>
                 connection\<lparr>channelServer := dispose (channelServer connection),
                             channelClient := client_dispose (channelClient connection)\<rparr>),
             connections := removeAll k (connections h)\<rparr>)"

definition IPCServer_getServerChannel ::
  "string \<Rightarrow> ('ctx, 'a, 'n) IPCServer \<Rightarrow> ('ctx, 'a) IServerChannel option" where
  "IPCServer_getServerChannel cn h = map_of (hub_channels h) cn"

definition register_on ::
  "string \<Rightarrow> ('ctx, 'a) IServerChannel \<Rightarrow> nat \<Rightarrow> ('ctx, 'a, 'n) IPCServer \<Rightarrow> ('ctx, 'a, 'n) IPCServer" where
  "register_on cn channel k h =
     (case objects h k of
        None \<Rightarrow> h
      | Some connection \<Rightarrow>
          h\<lparr>objects := (objects h)(k \<mapsto>
                 connection\<lparr>channelServer := registerChannel cn channel (channelServer connection)\<rparr>)\<rparr>)"

definition IPCServer_registerChannel ::
  "string \<Rightarrow> ('ctx, 'a) IServerChannel \<Rightarrow> ('ctx, 'a, 'n) IPCServer \<Rightarrow> ('ctx, 'a, 'n) IPCServer" where
  "IPCServer_registerChannel cn channel h =
     fold (register_on cn channel) (connections h)
       (h\<lparr>hub_channels := AList.update cn channel (hub_channels h)\<rparr>)"

definition IPCServer_dispose :: "('ctx, 'a, 'n) IPCServer \<Rightarrow> ('ctx, 'a, 'n) IPCServer" where
  "IPCServer_dispose h = h\<lparr>hub_channels := [], connections := [], changeEmitterDisposed := True\<rparr>"

datatype ('ctx, 'a) hub_event =
    ClientConnects 'ctx
  | ClientDisconnects nat
  | HubRegisters string "('ctx, 'a) IServerChannel"
  | HubDisposes

fun hub_step ::
  "('ctx, 'a) hub_event \<Rightarrow> ('ctx, 'a, 'n::numeral) IPCServer \<Rightarrow> ('ctx, 'a, 'n) IPCServer" where
  "hub_step (ClientConnects c) h = onFirstMessage c h"
| "hub_step (ClientDisconnects k) h = onDidClientDisconnect k h"
| "hub_step (HubRegisters cn channel) h = IPCServer_registerChannel cn channel h"
| "hub_step HubDisposes h = IPCServer_dispose h"

section \<open>Notions used in the statements\<close>





text \<open>
  The runtime of the runs below. Its payloads are the values of the codec, with
  nothing in the JSON case but values that \<^verbatim>\<open>JSON.stringify\<close> refuses (as it
  refuses a \<^verbatim>\<open>BigInt\<close>): a payload can be written, by \<^verbatim>\<open>serialize\<close> or inside an
  object by \<^verbatim>\<open>JSON.stringify\<close>, exactly when it holds none of them. Its numbers are
  the unsigned 32-bit integers, each of which is a JavaScript number that a template
  literal prints as its decimal digits.
\<close>

fun decimal :: "nat \<Rightarrow> string" where
  "decimal n =
     (if n < 10 then [''0123456789'' ! n]
      else decimal (n div 10) @ [''0123456789'' ! (n mod 10)])"

declare decimal.simps [simp del]

definition sample_runtime :: "(unit any, 32 word) runtime" where
  "sample_runtime =
     \<lparr>canSerialize =
        (\<lambda>v. case serialize (\<lambda>j. None) \<lparr>buffers = []\<rparr> v of Inl e \<Rightarrow> False | Inr w \<Rightarrow> True),
      canStringify =
        (\<lambda>v. case serialize (\<lambda>j. None) \<lparr>buffers = []\<rparr> v of Inl e \<Rightarrow> False | Inr w \<Rightarrow> True),
      Number_toString = (\<lambda>n. decimal (unat n))\<rparr>"

text \<open>
  A channel whose \<^verbatim>\<open>call\<close> always returns a promise, and one whose \<^verbatim>\<open>call\<close>
  always throws the string \<^verbatim>\<open>no\<close>.
\<close>

definition silent_channel :: "('ctx, 'a) IServerChannel" where
  "silent_channel = \<lparr>call = (\<lambda>c n a. None)\<rparr>"


text \<open>
  Two invariants of the server. \<open>server_inv\<close>: a drain is only scheduled for a
  registered channel, and the timer of a queued request has a handle that
  \<^verbatim>\<open>setTimeout\<close> has already handed out. \<open>pending_inv t req\<close>: moreover the timer
  \<open>t\<close> is armed with the timeout of the request \<open>req\<close>, whose channel is not
  registered, and no queue but that of this channel holds a request with the timer
  \<open>t\<close>.
\<close>

definition server_inv :: "('ctx, 'a, 'n) ChannelServer \<Rightarrow> bool" where
  "server_inv s \<longleftrightarrow>
     (\<forall>t cn. timers s t = Some (FlushPending cn) \<longrightarrow> channels s cn \<noteq> None)
     \<and> (\<forall>cn q p. pendingRequests s cn = Some q \<longrightarrow> p \<in> set q \<longrightarrow> timeoutTimer p < nextTimer s)"

definition pending_inv ::
  "nat \<Rightarrow> 'a IRawChannelRequest \<Rightarrow> ('ctx, 'a, 'n) ChannelServer \<Rightarrow> bool" where
  "pending_inv t req s \<longleftrightarrow>
     server_inv s \<and> timers s t = Some (PendingTimeout req) \<and> t < nextTimer s
     \<and> channels s (channelName req) = None
     \<and> (\<forall>cn q p. pendingRequests s cn = Some q \<longrightarrow> p \<in> set q \<longrightarrow> timeoutTimer p = t
          \<longrightarrow> cn = channelName req)"

text \<open>
  The terminal responses acted upon for request \<open>i\<close>: the settlements of its promise
  made by its handler, which are all those that are not a cancellation.
\<close>

definition acted :: "'a ChannelClient \<Rightarrow> nat \<Rightarrow> (nat \<times> 'a promise_result) list" where
  "acted c i = filter (\<lambda>(j, r). j = i \<and> r \<noteq> RejectCanceled) (settled c)"

text \<open>
  The invariant, for each id: an id that names no request has no handler, no wait and
  no settlement by a response; a call that waits has no handler yet; a call has either
  no handler or the handler of a call, and while it has its handler it has no
  settlement by a response yet; an event keeps its handler and never settles anything.
  Ids from \<^verbatim>\<open>lastRequestId\<close> on name no request.
\<close>

definition id_ok :: "'a ChannelClient \<Rightarrow> nat \<Rightarrow> bool" where
  "id_ok c i =
     (case requestOf c i of
        None \<Rightarrow> handlers c i = None \<and> \<not> uninitializedPromise c i \<and> acted c i = []
      | Some (IRawPromiseRequest j cn n a) \<Rightarrow>
          (if uninitializedPromise c i then handlers c i = None \<and> acted c i = []
           else if handlers c i = None then length (acted c i) \<le> 1
           else handlers c i = Some PromiseHandler \<and> acted c i = [])
      | Some (IRawEventListenRequest j cn n a) \<Rightarrow>
          handlers c i = Some EventHandler \<and> acted c i = [])"

text \<open>Request ids are JavaScript numbers, counted here as natural numbers.\<close>

definition client_inv :: "'a ChannelClient \<Rightarrow> bool" where
  "client_inv c \<longleftrightarrow> (\<forall>i. id_ok c i) \<and> (\<forall>i. lastRequestId c \<le> i \<longrightarrow> requestOf c i = None)"

text \<open>
  \<open>undisposed_as\<close>: the second connection is as disposed as the first one. Its server
  has the same listener and the same disposed handles, its client is the same.
\<close>

definition undisposed_as ::
  "('ctx, 'a, 'n) Connection \<Rightarrow> ('ctx, 'a, 'n) Connection \<Rightarrow> bool" where
  "undisposed_as connection connection' \<longleftrightarrow>
     protocolListener (channelServer connection') = protocolListener (channelServer connection)
     \<and> disposed (channelServer connection') = disposed (channelServer connection)
     \<and> channelClient connection' = channelClient connection"

chapter \<open>Properties\<close>

section \<open>Properties: The wire codec of \<^verbatim>\<open>ipc.ts\<close>\<close>

subsection \<open>Strings through UTF-8\<close>













subsection \<open>Round trip\<close>




















subsection \<open>Unknown tags\<close>

lemma read_one:
  assumes "pos r < length (buffer r)"
  shows "BufferReader_read 1 r = ([buffer r ! pos r], r\<lparr>pos := Suc (pos r)\<rparr>)"
proof -
  have "take 1 (drop (pos r) (buffer r)) = [buffer r ! pos r]"
    using assms by (simp add: take_Suc_conv_app_nth Cons_nth_drop_Suc [symmetric])
  then show ?thesis by (simp add: BufferReader_read_def slice_def)
qed

text \<open>
  Claim C10. When the byte at the reader's position is none of the six tags 0 to 5,
  \<^verbatim>\<open>deserialize\<close> returns \<^verbatim>\<open>undefined\<close> (it raises nothing), having consumed
  that one byte.
\<close>

theorem deserialize_unknown_tag:
  assumes "pos r < length (buffer r)" and "5 < unat (buffer r ! pos r)"
  shows "deserialize parse r = Inr (Undefined, r\<lparr>pos := Suc (pos r)\<rparr>)"
  using assms(2) read_one[OF assms(1)]
  by (subst deserialize.simps) simp

theorem deserialize_unknown_tag_witness:
  "pos \<lparr>buffer = [9, 1, 2], pos = 0\<rparr> < length (buffer \<lparr>buffer = [9, 1, 2], pos = 0\<rparr>)
   \<and> 5 < unat (buffer \<lparr>buffer = [9, 1, 2], pos = 0\<rparr> ! pos \<lparr>buffer = [9, 1, 2], pos = 0\<rparr>)
   \<and> deserialize (Some :: JSString \<Rightarrow> JSString option) \<lparr>buffer = [9, 1, 2], pos = 0\<rparr>
       = Inr (Undefined, \<lparr>buffer = [9, 1, 2], pos = 1\<rparr>)"
  using deserialize_unknown_tag[of "\<lparr>buffer = [9, 1, 2], pos = 0\<rparr>" "Some :: JSString \<Rightarrow> JSString option"]
  by simp
section \<open>Properties: \<^verbatim>\<open>ChannelServer\<close>\<close>

subsection \<open>A request that timed out stays queued\<close>

text \<open>
  Claim C1. The claim asks that the timeout, besides answering \<^verbatim>\<open>PromiseError\<close>,
  removes the request from the pending queue. The code answers, but the entry stays:
  a server receives request 0 for the unregistered channel \<^verbatim>\<open>svc\<close>, the timer
  fires and \<^verbatim>\<open>PromiseError\<close> is sent; the queue of \<^verbatim>\<open>svc\<close> still holds the
  request. When \<^verbatim>\<open>svc\<close> is registered afterwards and the drain runs, the request
  is dispatched to the channel, and its result is sent as a second terminal response
  for the same id.
\<close>

theorem timed_out_request_is_dispatched_again:
  "(let req = IRawPromiseRequest 0 ''svc'' ''ping'' Undefined;
        s1 = server_run sample_runtime [Receives (ChannelRequest req), TimerFires 0]
               (ChannelServer_new () 1000 :: (unit, unit any, 32 word) ChannelServer);
        s2 = server_run sample_runtime [Registers ''svc'' silent_channel, TimerFires 1] s1;
        s3 = server_run sample_runtime [PromiseSettles 0 (Fulfilled Undefined)] s2
    in sent s1 = [IRawInitializeResponse,
                  IRawPromiseErrorResponse 0
                    \<lparr>err_message = ''Channel name '' @ [CHR 0x27] @ ''svc'' @ [CHR 0x27]
                        @ '' timed out after 1000ms'',
                     err_name = ''Unknown channel'', err_stack = StackUndefined\<rparr>]
     \<and> pendingRequests s1 ''svc'' = Some [\<lparr>request = req, timeoutTimer = 0\<rparr>]
     \<and> promises s2 = [(req, None)]
     \<and> sent s3 = sent s1 @ [IRawPromiseSuccessResponse 0 Undefined])"
  by (simp add: server_run_def ChannelServer_new_def sendResponse_def send_def sendBuffer_def
      serializes_def sample_runtime_def onRawMessage_def
      onPromise_def collectPendingRequest_def setTimeout_def timerFires_def pendingTimeout_def
      decimal.simps registerChannel_def flushPendingRequests_def redispatch_def
      clearTimeout_def silent_channel_def promiseSettles_def onPromise_fulfilled_def Let_def)

subsection \<open>What a run keeps\<close>

lemma sendResponse_Some: "sendResponse rt r s = Some s' \<Longrightarrow> s' = sendBuffer r s"
  by (auto simp: sendResponse_def send_def split: IRawResponse.splits if_splits)

text \<open>The \<^verbatim>\<open>Initialize\<close> response of the constructor is always sent.\<close>

lemma sendResponse_Initialize:
  "sendResponse rt IRawInitializeResponse s = Some (sendBuffer IRawInitializeResponse s)"
  by (simp add: sendResponse_def send_def serializes_def)

lemma fold_dispose_fields:
  "timers (fold (\<lambda>(i, d) s'. s'\<lparr>disposed := disposed s' @ [d]\<rparr>) xs s) = timers s
   \<and> nextTimer (fold (\<lambda>(i, d) s'. s'\<lparr>disposed := disposed s' @ [d]\<rparr>) xs s) = nextTimer s
   \<and> timeoutDelay (fold (\<lambda>(i, d) s'. s'\<lparr>disposed := disposed s' @ [d]\<rparr>) xs s) = timeoutDelay s
   \<and> channels (fold (\<lambda>(i, d) s'. s'\<lparr>disposed := disposed s' @ [d]\<rparr>) xs s) = channels s
   \<and> pendingRequests (fold (\<lambda>(i, d) s'. s'\<lparr>disposed := disposed s' @ [d]\<rparr>) xs s) = pendingRequests s
   \<and> protocolListener (fold (\<lambda>(i, d) s'. s'\<lparr>disposed := disposed s' @ [d]\<rparr>) xs s) = protocolListener s
   \<and> sent (fold (\<lambda>(i, d) s'. s'\<lparr>disposed := disposed s' @ [d]\<rparr>) xs s) = sent s
   \<and> promises (fold (\<lambda>(i, d) s'. s'\<lparr>disposed := disposed s' @ [d]\<rparr>) xs s) = promises s
   \<and> disposed (fold (\<lambda>(i, d) s'. s'\<lparr>disposed := disposed s' @ [d]\<rparr>) xs s) = disposed s @ map snd xs"
  by (induction xs arbitrary: s) (auto split: prod.splits)

text \<open>
  The operations that touch neither the registry, nor the queues, nor the timers, nor
  the delay.
\<close>

lemma pendingTimeout_keeps:
  "timers (pendingTimeout rt req s) = timers s \<and> nextTimer (pendingTimeout rt req s) = nextTimer s
   \<and> channels (pendingTimeout rt req s) = channels s
   \<and> pendingRequests (pendingTimeout rt req s) = pendingRequests s
   \<and> timeoutDelay (pendingTimeout rt req s) = timeoutDelay s"
  by (cases req)
     (simp_all add: pendingTimeout_def sendResponse_def send_def sendBuffer_def Let_def)

lemma promiseSettles_keeps:
  "timers (promiseSettles rt k outcome s) = timers s
   \<and> nextTimer (promiseSettles rt k outcome s) = nextTimer s
   \<and> channels (promiseSettles rt k outcome s) = channels s
   \<and> pendingRequests (promiseSettles rt k outcome s) = pendingRequests s
   \<and> timeoutDelay (promiseSettles rt k outcome s) = timeoutDelay s"
  by (auto simp: promiseSettles_def onPromise_fulfilled_def onPromise_rejected_def
        sendBuffer_def Let_def
      split: prod.splits option.splits settlement.splits thrown.splits
      dest!: sendResponse_Some)

lemma disposeActiveRequest_keeps:
  "timers (disposeActiveRequest i s) = timers s
   \<and> nextTimer (disposeActiveRequest i s) = nextTimer s
   \<and> channels (disposeActiveRequest i s) = channels s
   \<and> pendingRequests (disposeActiveRequest i s) = pendingRequests s
   \<and> timeoutDelay (disposeActiveRequest i s) = timeoutDelay s"
  by (simp add: disposeActiveRequest_def split: option.splits)

lemma dispose_keeps:
  "timers (dispose s) = timers s \<and> nextTimer (dispose s) = nextTimer s
   \<and> channels (dispose s) = channels s \<and> pendingRequests (dispose s) = pendingRequests s
   \<and> timeoutDelay (dispose s) = timeoutDelay s"
  by (simp add: dispose_def Let_def fold_dispose_fields)

subsection \<open>The delay along a run\<close>

lemma timeoutDelay_collectPendingRequest:
  "timeoutDelay (collectPendingRequest req s) = timeoutDelay s"
  by (simp add: collectPendingRequest_def setTimeout_def Let_def)

lemma timeoutDelay_onPromise: "timeoutDelay (onPromise req s) = timeoutDelay s"
  by (simp add: onPromise_def timeoutDelay_collectPendingRequest Let_def split: option.splits)

lemma timeoutDelay_onEventListen: "timeoutDelay (onEventListen req s) = timeoutDelay s"
  by (simp add: onEventListen_def timeoutDelay_collectPendingRequest split: option.splits)

lemma timeoutDelay_redispatch: "timeoutDelay (redispatch p s) = timeoutDelay s"
  by (cases "request p")
     (simp_all add: redispatch_def clearTimeout_def timeoutDelay_onPromise
        timeoutDelay_onEventListen Let_def)

lemma timeoutDelay_fold_redispatch: "timeoutDelay (fold redispatch ps s) = timeoutDelay s"
  by (induction ps arbitrary: s) (simp_all add: timeoutDelay_redispatch)

lemma timeoutDelay_flushPendingRequests: "timeoutDelay (flushPendingRequests cn s) = timeoutDelay s"
  by (simp add: flushPendingRequests_def timeoutDelay_fold_redispatch Let_def split: option.splits)

lemma timeoutDelay_timerFires: "timeoutDelay (timerFires rt t s) = timeoutDelay s"
  by (simp add: timerFires_def pendingTimeout_keeps timeoutDelay_flushPendingRequests Let_def
      split: option.splits timer_task.splits)

lemma timeoutDelay_onRawMessage: "timeoutDelay (onRawMessage msg s) = timeoutDelay s"
  by (simp add: onRawMessage_def timeoutDelay_onPromise timeoutDelay_onEventListen
      disposeActiveRequest_keeps split: IRawRequest.splits IRawChannelRequest.splits)

lemma timeoutDelay_server_step: "timeoutDelay (server_step rt e s) = timeoutDelay s"
  by (cases e)
     (simp_all add: timeoutDelay_onRawMessage registerChannel_def setTimeout_def
        timeoutDelay_timerFires promiseSettles_keeps dispose_keeps)

lemma timeoutDelay_server_run: "timeoutDelay (server_run rt es s) = timeoutDelay s"
  unfolding server_run_def
  by (induction es arbitrary: s) (simp_all add: timeoutDelay_server_step)

subsection \<open>Queues and timers along a run\<close>

lemma server_inv_cong:
  assumes "timers s' = timers s" and "nextTimer s' = nextTimer s" and "channels s' = channels s"
    and "pendingRequests s' = pendingRequests s"
  shows "server_inv s' = server_inv s"
  by (simp add: server_inv_def assms)

lemma pending_inv_cong:
  assumes "timers s' = timers s" and "nextTimer s' = nextTimer s" and "channels s' = channels s"
    and "pendingRequests s' = pendingRequests s"
  shows "pending_inv t req s' = pending_inv t req s"
  by (simp add: pending_inv_def server_inv_def assms)

lemma server_inv_new: "server_inv (ChannelServer_new c delay)"
  by (simp add: server_inv_def ChannelServer_new_def sendBuffer_def)

lemma server_inv_collectPendingRequest:
  assumes "server_inv s"
  shows "server_inv (collectPendingRequest req s)"
proof -
  let ?q = "case pendingRequests s (channelName req) of None \<Rightarrow> [] | Some q \<Rightarrow> q"
  have old: "timeoutTimer p < nextTimer s" if "p \<in> set ?q" for p
    using assms that unfolding server_inv_def
    by (cases "pendingRequests s (channelName req)") auto
  have "timeoutTimer p < Suc (nextTimer s)"
    if "((pendingRequests s)(channelName req \<mapsto>
            ?q @ [\<lparr>request = req, timeoutTimer = nextTimer s\<rparr>])) cn = Some q" and "p \<in> set q"
    for cn q p
  proof (cases "cn = channelName req")
    case True
    with that have "p \<in> set ?q \<or> timeoutTimer p = nextTimer s" by auto
    with old show ?thesis by (auto simp: less_Suc_eq)
  next
    case False
    with that assms show ?thesis unfolding server_inv_def by (auto simp: less_Suc_eq)
  qed
  moreover have "channels s cn \<noteq> None"
    if "((timers s)(nextTimer s \<mapsto> PendingTimeout req)) t = Some (FlushPending cn)" for t cn
    using that assms unfolding server_inv_def by (auto split: if_splits)
  ultimately show ?thesis
    unfolding server_inv_def collectPendingRequest_def setTimeout_def Let_def
    by (simp del: fun_upd_apply)
qed

lemma server_inv_onPromise: "server_inv s \<Longrightarrow> server_inv (onPromise req s)"
proof (cases "channels s (channelName req)")
  case None
  assume "server_inv s"
  with None show ?thesis by (simp add: onPromise_def server_inv_collectPendingRequest)
next
  case (Some ch)
  assume "server_inv s"
  moreover have "server_inv (onPromise req s) = server_inv s"
    using Some by (intro server_inv_cong) (simp_all add: onPromise_def Let_def)
  ultimately show ?thesis by simp
qed

lemma server_inv_onEventListen: "server_inv s \<Longrightarrow> server_inv (onEventListen req s)"
proof (cases "channels s (channelName req)")
  case None
  assume "server_inv s"
  with None show ?thesis by (simp add: onEventListen_def server_inv_collectPendingRequest)
next
  case (Some ch)
  assume "server_inv s"
  moreover have "server_inv (onEventListen req s) = server_inv s"
    using Some by (intro server_inv_cong) (simp_all add: onEventListen_def)
  ultimately show ?thesis by simp
qed

lemma server_inv_clearTimeout: "server_inv s \<Longrightarrow> server_inv (clearTimeout t s)"
  by (auto simp: server_inv_def clearTimeout_def split: if_splits)

lemma server_inv_redispatch: "server_inv s \<Longrightarrow> server_inv (redispatch p s)"
  by (cases "request p")
     (simp_all add: redispatch_def Let_def server_inv_clearTimeout server_inv_onPromise
        server_inv_onEventListen)

lemma server_inv_fold_redispatch: "server_inv s \<Longrightarrow> server_inv (fold redispatch ps s)"
  by (induction ps arbitrary: s) (simp_all add: server_inv_redispatch)

lemma server_inv_drop_queue:
  "server_inv s \<Longrightarrow> server_inv (s\<lparr>pendingRequests := (pendingRequests s)(cn := None)\<rparr>)"
  by (auto simp: server_inv_def split: if_splits)

lemma server_inv_flushPendingRequests: "server_inv s \<Longrightarrow> server_inv (flushPendingRequests cn s)"
  by (simp add: flushPendingRequests_def Let_def server_inv_fold_redispatch server_inv_drop_queue
      split: option.splits)

lemma server_inv_timer_gone:
  "server_inv s \<Longrightarrow> server_inv (s\<lparr>timers := (timers s)(t := None)\<rparr>)"
  by (auto simp: server_inv_def split: if_splits)

lemma server_inv_timerFires:
  assumes "server_inv s"
  shows "server_inv (timerFires rt t s)"
proof (cases "timers s t")
  case None
  with assms show ?thesis by (simp add: timerFires_def)
next
  case (Some task)
  let ?s1 = "s\<lparr>timers := (timers s)(t := None)\<rparr>"
  have s1: "server_inv ?s1" using assms by (rule server_inv_timer_gone)
  show ?thesis
  proof (cases task)
    case (PendingTimeout req)
    have "server_inv (pendingTimeout rt req ?s1) = server_inv ?s1"
      by (intro server_inv_cong) (simp_all add: pendingTimeout_keeps)
    with s1 Some PendingTimeout show ?thesis by (simp add: timerFires_def)
  next
    case (FlushPending cn)
    with s1 Some show ?thesis by (simp add: timerFires_def server_inv_flushPendingRequests)
  qed
qed

lemma server_inv_registerChannel: "server_inv s \<Longrightarrow> server_inv (registerChannel cn ch s)"
  by (auto simp: server_inv_def registerChannel_def setTimeout_def less_Suc_eq split: if_splits)

lemma server_inv_server_step:
  assumes "server_inv s"
  shows "server_inv (server_step rt e s)"
proof (cases e)
  case (Receives msg)
  show ?thesis
  proof (cases msg)
    case (ChannelRequest req)
    with Receives assms show ?thesis
      by (cases req) (simp_all add: onRawMessage_def server_inv_onPromise server_inv_onEventListen)
  next
    case (IRawPromiseCancelRequest i)
    have "server_inv (disposeActiveRequest i s) = server_inv s"
      by (intro server_inv_cong) (simp_all add: disposeActiveRequest_keeps)
    with Receives IRawPromiseCancelRequest assms show ?thesis by (simp add: onRawMessage_def)
  next
    case (IRawEventDisposeRequest i)
    have "server_inv (disposeActiveRequest i s) = server_inv s"
      by (intro server_inv_cong) (simp_all add: disposeActiveRequest_keeps)
    with Receives IRawEventDisposeRequest assms show ?thesis by (simp add: onRawMessage_def)
  qed
next
  case (Registers cn ch)
  with assms show ?thesis by (simp add: server_inv_registerChannel)
next
  case (TimerFires t)
  with assms show ?thesis by (simp add: server_inv_timerFires)
next
  case (PromiseSettles k outcome)
  have "server_inv (promiseSettles rt k outcome s) = server_inv s"
    by (intro server_inv_cong) (simp_all add: promiseSettles_keeps)
  with PromiseSettles assms show ?thesis by simp
next
  case Disposes
  have "server_inv (dispose s) = server_inv s"
    by (intro server_inv_cong) (simp_all add: dispose_keeps)
  with Disposes assms show ?thesis by simp
qed

lemma server_inv_server_run: "server_inv s \<Longrightarrow> server_inv (server_run rt es s)"
  unfolding server_run_def
  by (induction es arbitrary: s) (simp_all add: server_inv_server_step)

text \<open>
  The timer of a queued request stays armed as long as it does not fire and the
  channel of the request is not registered.
\<close>

lemma pending_inv_collectPendingRequest:
  assumes "pending_inv t req s"
  shows "pending_inv t req (collectPendingRequest r s)"
proof -
  from assms have inv: "server_inv s" and lt: "t < nextTimer s" by (simp_all add: pending_inv_def)
  have "server_inv (collectPendingRequest r s)"
    using inv by (rule server_inv_collectPendingRequest)
  then show ?thesis
    using assms lt
    by (auto simp: pending_inv_def collectPendingRequest_def setTimeout_def Let_def
        split: if_splits option.splits)
qed

lemma pending_inv_onPromise: "pending_inv t req s \<Longrightarrow> pending_inv t req (onPromise r s)"
proof (cases "channels s (channelName r)")
  case None
  assume "pending_inv t req s"
  with None show ?thesis by (simp add: onPromise_def pending_inv_collectPendingRequest)
next
  case (Some ch)
  assume "pending_inv t req s"
  moreover have "pending_inv t req (onPromise r s) = pending_inv t req s"
    using Some by (intro pending_inv_cong) (simp_all add: onPromise_def Let_def)
  ultimately show ?thesis by simp
qed

lemma pending_inv_onEventListen: "pending_inv t req s \<Longrightarrow> pending_inv t req (onEventListen r s)"
proof (cases "channels s (channelName r)")
  case None
  assume "pending_inv t req s"
  with None show ?thesis by (simp add: onEventListen_def pending_inv_collectPendingRequest)
next
  case (Some ch)
  assume "pending_inv t req s"
  moreover have "pending_inv t req (onEventListen r s) = pending_inv t req s"
    using Some by (intro pending_inv_cong) (simp_all add: onEventListen_def)
  ultimately show ?thesis by simp
qed

lemma pending_inv_clearTimeout:
  assumes "pending_inv t req s" and "t' \<noteq> t"
  shows "pending_inv t req (clearTimeout t' s)"
proof -
  from assms(1) have "server_inv (clearTimeout t' s)"
    by (simp add: pending_inv_def server_inv_clearTimeout)
  then show ?thesis
    using assms by (simp add: pending_inv_def clearTimeout_def)
qed

lemma pending_inv_redispatch:
  assumes "pending_inv t req s" and "timeoutTimer p \<noteq> t"
  shows "pending_inv t req (redispatch p s)"
  using pending_inv_clearTimeout[OF assms]
  by (cases "request p")
     (simp_all add: redispatch_def Let_def pending_inv_onPromise pending_inv_onEventListen)

lemma pending_inv_fold_redispatch:
  "pending_inv t req s \<Longrightarrow> \<forall>p \<in> set ps. timeoutTimer p \<noteq> t \<Longrightarrow>
   pending_inv t req (fold redispatch ps s)"
  by (induction ps arbitrary: s) (simp_all add: pending_inv_redispatch)

lemma pending_inv_drop_queue:
  assumes "pending_inv t req s"
  shows "pending_inv t req (s\<lparr>pendingRequests := (pendingRequests s)(cn := None)\<rparr>)"
proof -
  from assms have "server_inv (s\<lparr>pendingRequests := (pendingRequests s)(cn := None)\<rparr>)"
    by (simp add: pending_inv_def server_inv_drop_queue)
  then show ?thesis
    using assms by (auto simp: pending_inv_def split: if_splits)
qed

lemma pending_inv_flushPendingRequests:
  assumes "pending_inv t req s" and "channels s cn \<noteq> None"
  shows "pending_inv t req (flushPendingRequests cn s)"
proof (cases "pendingRequests s cn")
  case None
  with assms(1) show ?thesis by (simp add: flushPendingRequests_def)
next
  case (Some ps)
  have "\<forall>p \<in> set ps. timeoutTimer p \<noteq> t"
    using assms Some by (auto simp: pending_inv_def)
  with assms(1) have "pending_inv t req (fold redispatch ps s)"
    by (rule pending_inv_fold_redispatch)
  then show ?thesis
    using Some by (simp add: flushPendingRequests_def Let_def pending_inv_drop_queue)
qed

lemma pending_inv_timerFires:
  assumes "pending_inv t req s" and "t' \<noteq> t"
  shows "pending_inv t req (timerFires rt t' s)"
proof (cases "timers s t'")
  case None
  with assms(1) show ?thesis by (simp add: timerFires_def)
next
  case (Some task)
  let ?s1 = "s\<lparr>timers := (timers s)(t' := None)\<rparr>"
  have "server_inv ?s1" using assms(1) by (simp add: pending_inv_def server_inv_timer_gone)
  then have s1: "pending_inv t req ?s1"
    using assms by (simp add: pending_inv_def)
  show ?thesis
  proof (cases task)
    case (PendingTimeout r)
    have "pending_inv t req (pendingTimeout rt r ?s1) = pending_inv t req ?s1"
      by (intro pending_inv_cong) (simp_all add: pendingTimeout_keeps)
    with s1 Some PendingTimeout show ?thesis by (simp add: timerFires_def)
  next
    case (FlushPending cn)
    have "channels s cn \<noteq> None"
      using assms(1) Some FlushPending by (auto simp: pending_inv_def server_inv_def)
    then have "pending_inv t req (flushPendingRequests cn ?s1)"
      using s1 by (intro pending_inv_flushPendingRequests) simp_all
    with Some FlushPending show ?thesis by (simp add: timerFires_def)
  qed
qed

lemma pending_inv_registerChannel:
  assumes "pending_inv t req s" and "cn \<noteq> channelName req"
  shows "pending_inv t req (registerChannel cn ch s)"
proof -
  from assms(1) have "server_inv (registerChannel cn ch s)"
    by (simp add: pending_inv_def server_inv_registerChannel)
  then show ?thesis
    using assms by (auto simp: pending_inv_def registerChannel_def setTimeout_def)
qed

lemma pending_inv_server_step:
  assumes "pending_inv t req s" and "e \<noteq> TimerFires t"
    and "\<forall>ch. e \<noteq> Registers (channelName req) ch"
  shows "pending_inv t req (server_step rt e s)"
proof (cases e)
  case (Receives msg)
  show ?thesis
  proof (cases msg)
    case (ChannelRequest r)
    with Receives assms(1) show ?thesis
      by (cases r) (simp_all add: onRawMessage_def pending_inv_onPromise pending_inv_onEventListen)
  next
    case (IRawPromiseCancelRequest i)
    have "pending_inv t req (disposeActiveRequest i s) = pending_inv t req s"
      by (intro pending_inv_cong) (simp_all add: disposeActiveRequest_keeps)
    with Receives IRawPromiseCancelRequest assms(1) show ?thesis by (simp add: onRawMessage_def)
  next
    case (IRawEventDisposeRequest i)
    have "pending_inv t req (disposeActiveRequest i s) = pending_inv t req s"
      by (intro pending_inv_cong) (simp_all add: disposeActiveRequest_keeps)
    with Receives IRawEventDisposeRequest assms(1) show ?thesis by (simp add: onRawMessage_def)
  qed
next
  case (Registers cn ch)
  with assms(3) have "cn \<noteq> channelName req" by auto
  with Registers assms(1) show ?thesis by (simp add: pending_inv_registerChannel)
next
  case (TimerFires t')
  with assms(2) have "t' \<noteq> t" by simp
  with TimerFires assms(1) show ?thesis by (simp add: pending_inv_timerFires)
next
  case (PromiseSettles k outcome)
  have "pending_inv t req (promiseSettles rt k outcome s) = pending_inv t req s"
    by (intro pending_inv_cong) (simp_all add: promiseSettles_keeps)
  with PromiseSettles assms(1) show ?thesis by simp
next
  case Disposes
  have "pending_inv t req (dispose s) = pending_inv t req s"
    by (intro pending_inv_cong) (simp_all add: dispose_keeps)
  with Disposes assms(1) show ?thesis by simp
qed

lemma pending_inv_server_run:
  "pending_inv t req s \<Longrightarrow>
   \<forall>e \<in> set es. e \<noteq> TimerFires t \<and> (\<forall>ch. e \<noteq> Registers (channelName req) ch) \<Longrightarrow>
   pending_inv t req (server_run rt es s)"
  unfolding server_run_def
  by (induction es arbitrary: s) (simp_all add: pending_inv_server_step)

lemma pending_inv_collected:
  assumes "server_inv s" and "channels s cn = None" and "protocolListener s"
  shows "pending_inv (nextTimer s) (IRawPromiseRequest i cn n a)
           (server_step rt (Receives (ChannelRequest (IRawPromiseRequest i cn n a))) s)"
proof -
  from assms(1) have "server_inv (collectPendingRequest (IRawPromiseRequest i cn n a) s)"
    by (rule server_inv_collectPendingRequest)
  moreover have "timeoutTimer p \<noteq> nextTimer s" if "pendingRequests s c = Some q" and "p \<in> set q"
    for c q p
    using assms(1) that unfolding server_inv_def by (metis less_irrefl)
  ultimately show ?thesis
    using assms(2,3)
    by (auto simp: pending_inv_def onRawMessage_def onPromise_def collectPendingRequest_def
        setTimeout_def Let_def split: if_splits option.splits)
qed

lemma pendingTimeout_fires:
  assumes "timers s t = Some (PendingTimeout (IRawPromiseRequest i cn n a))"
  shows "sent (timerFires rt t s) = sent s @
           [IRawPromiseErrorResponse i
              \<lparr>err_message = ''Channel name '' @ [CHR 0x27] @ cn @ [CHR 0x27]
                  @ '' timed out after '' @ Number_toString rt (timeoutDelay s) @ ''ms'',
               err_name = ''Unknown channel'', err_stack = StackUndefined\<rparr>]"
  using assms
  by (simp add: timerFires_def pendingTimeout_def sendResponse_def send_def sendBuffer_def
      serializes_def Let_def)

subsection \<open>The timeout of a request for an unknown channel\<close>

text \<open>
  Claim C6. A server that a run \<open>es0\<close> from its construction has left in the state
  \<open>s\<close> receives a \<^verbatim>\<open>Promise\<close> request \<open>i\<close> for a channel name \<open>cn\<close> that is
  not registered. Whatever happens before the timer of the request fires (\<open>es\<close>), as
  long as \<open>cn\<close> is not registered, the timer stays armed, and when it fires the server
  sends \<^verbatim>\<open>PromiseError\<close> for \<open>i\<close> with name \<^verbatim>\<open>Unknown channel\<close>, no stack,
  and the message \<^verbatim>\<open>Channel name '<cn>' timed out after <timeoutDelay>ms\<close>, where
  \<^verbatim>\<open><timeoutDelay>\<close> is what the language prints for the delay the server was
  constructed with.
\<close>

theorem unknown_channel_timeout_response:
  assumes "s = server_run rt es0 (ChannelServer_new c delay)"
    and "channels s cn = None" and "protocolListener s"
    and "\<forall>e \<in> set es. e \<noteq> TimerFires (nextTimer s) \<and> (\<forall>ch. e \<noteq> Registers cn ch)"
  shows "timers (server_run rt es
                   (server_step rt (Receives (ChannelRequest (IRawPromiseRequest i cn n a))) s))
           (nextTimer s) = Some (PendingTimeout (IRawPromiseRequest i cn n a))
    \<and> sent (timerFires rt (nextTimer s)
              (server_run rt es
                 (server_step rt (Receives (ChannelRequest (IRawPromiseRequest i cn n a))) s)))
        = sent (server_run rt es
                  (server_step rt (Receives (ChannelRequest (IRawPromiseRequest i cn n a))) s))
          @ [IRawPromiseErrorResponse i
               \<lparr>err_message = ''Channel name '' @ [CHR 0x27] @ cn @ [CHR 0x27]
                   @ '' timed out after '' @ Number_toString rt delay @ ''ms'',
                err_name = ''Unknown channel'', err_stack = StackUndefined\<rparr>]"
proof -
  let ?req = "IRawPromiseRequest i cn n a"
  let ?s1 = "server_step rt (Receives (ChannelRequest ?req)) s"
  let ?s' = "server_run rt es ?s1"
  have "server_inv s"
    unfolding assms(1) by (rule server_inv_server_run) (rule server_inv_new)
  then have "pending_inv (nextTimer s) ?req ?s1"
    using assms(2,3) by (rule pending_inv_collected)
  then have "pending_inv (nextTimer s) ?req ?s'"
    using assms(4) by (intro pending_inv_server_run) simp_all
  then have armed: "timers ?s' (nextTimer s) = Some (PendingTimeout ?req)"
    by (simp add: pending_inv_def)
  have "timeoutDelay ?s' = timeoutDelay (ChannelServer_new c delay :: ('a, 'b, 'c) ChannelServer)"
    unfolding assms(1) by (simp only: timeoutDelay_server_run timeoutDelay_server_step)
  then have "timeoutDelay ?s' = delay"
    by (simp add: ChannelServer_new_def sendBuffer_def)
  with pendingTimeout_fires[OF armed, of rt] armed show ?thesis by simp
qed

theorem unknown_channel_timeout_response_witness:
  "channels (server_run sample_runtime [Registers ''log'' silent_channel]
              (ChannelServer_new () 1000 :: (unit, unit any, 32 word) ChannelServer)) ''svc'' = None
   \<and> protocolListener (server_run sample_runtime [Registers ''log'' silent_channel]
              (ChannelServer_new () 1000 :: (unit, unit any, 32 word) ChannelServer))
   \<and> nextTimer (server_run sample_runtime [Registers ''log'' silent_channel]
              (ChannelServer_new () 1000 :: (unit, unit any, 32 word) ChannelServer)) = 1
   \<and> list_all (\<lambda>e. e \<noteq> TimerFires 1 \<and> (\<forall>ch. e \<noteq> Registers ''svc'' ch))
        [Receives (IRawEventDisposeRequest 3), TimerFires 0,
         Registers ''aux'' (silent_channel :: (unit, unit any) IServerChannel)]
   \<and> sent (timerFires sample_runtime 1
         (server_run sample_runtime
            [Receives (IRawEventDisposeRequest 3), TimerFires 0, Registers ''aux'' silent_channel]
            (server_step sample_runtime
               (Receives (ChannelRequest (IRawPromiseRequest 7 ''svc'' ''ping'' Undefined)))
               (server_run sample_runtime [Registers ''log'' silent_channel]
                  (ChannelServer_new () 1000 :: (unit, unit any, 32 word) ChannelServer)))))
       = [IRawInitializeResponse,
          IRawPromiseErrorResponse 7
            \<lparr>err_message = ''Channel name '' @ [CHR 0x27] @ ''svc'' @ [CHR 0x27]
                @ '' timed out after 1000ms'',
             err_name = ''Unknown channel'', err_stack = StackUndefined\<rparr>]"
proof -
  let ?Init = "server_run sample_runtime [Registers ''log'' silent_channel]
                 (ChannelServer_new () 1000 :: (unit, unit any, 32 word) ChannelServer)"
  let ?es = "[Receives (IRawEventDisposeRequest 3), TimerFires 0,
              Registers ''aux'' (silent_channel :: (unit, unit any) IServerChannel)]"
  let ?Run = "server_run sample_runtime ?es
                (server_step sample_runtime
                   (Receives (ChannelRequest (IRawPromiseRequest 7 ''svc'' ''ping'' Undefined))) ?Init)"
  have a: "channels ?Init ''svc'' = None"
    and b: "protocolListener ?Init"
    and n: "nextTimer ?Init = 1"
    by (simp_all add: server_run_def ChannelServer_new_def sendBuffer_def registerChannel_def
        setTimeout_def)
  have q: "list_all (\<lambda>e. e \<noteq> TimerFires 1 \<and> (\<forall>ch. e \<noteq> Registers ''svc'' ch)) ?es"
    by simp
  have q': "\<forall>e \<in> set ?es. e \<noteq> TimerFires (nextTimer ?Init) \<and> (\<forall>ch. e \<noteq> Registers ''svc'' ch)"
    unfolding n using q by (simp only: list_all_iff)
  have e: "sent ?Run = [IRawInitializeResponse]"
    by (simp add: server_run_def ChannelServer_new_def sendBuffer_def registerChannel_def
        setTimeout_def onRawMessage_def onPromise_def collectPendingRequest_def
        disposeActiveRequest_def timerFires_def flushPendingRequests_def Let_def)
  have t: "Number_toString sample_runtime (1000 :: 32 word) = ''1000''"
    by (simp add: sample_runtime_def decimal.simps)
  have "sent (timerFires sample_runtime 1 ?Run) = [IRawInitializeResponse,
          IRawPromiseErrorResponse 7
            \<lparr>err_message = ''Channel name '' @ [CHR 0x27] @ ''svc'' @ [CHR 0x27]
                @ '' timed out after 1000ms'',
             err_name = ''Unknown channel'', err_stack = StackUndefined\<rparr>]"
    using unknown_channel_timeout_response[OF refl a b q', where i = 7 and n = "''ping''"
        and a = Undefined]
    unfolding n e t by simp
  with a b n q show ?thesis by blast
qed

subsection \<open>The outcome of a service call\<close>




subsection \<open>\<^verbatim>\<open>dispose\<close>\<close>

text \<open>
  Claim C4 as stated fails: after \<^verbatim>\<open>dispose()\<close> a request queued for an
  unregistered channel is still queued, its timer is still armed, and when the timer
  fires the server still sends \<^verbatim>\<open>PromiseError\<close>.
\<close>

theorem dispose_leaves_pending_counterexample:
  "pendingRequests
     (dispose (server_step sample_runtime
        (Receives (ChannelRequest (IRawPromiseRequest 0 ''svc'' ''ping'' Undefined)))
        (ChannelServer_new () 1000 :: (unit, unit any, 32 word) ChannelServer))) ''svc''
     = Some [\<lparr>request = IRawPromiseRequest 0 ''svc'' ''ping'' Undefined, timeoutTimer = 0\<rparr>]
   \<and> timers
     (dispose (server_step sample_runtime
        (Receives (ChannelRequest (IRawPromiseRequest 0 ''svc'' ''ping'' Undefined)))
        (ChannelServer_new () 1000 :: (unit, unit any, 32 word) ChannelServer))) 0
     = Some (PendingTimeout (IRawPromiseRequest 0 ''svc'' ''ping'' Undefined))
   \<and> sent (timerFires sample_runtime 0
     (dispose (server_step sample_runtime
        (Receives (ChannelRequest (IRawPromiseRequest 0 ''svc'' ''ping'' Undefined)))
        (ChannelServer_new () 1000 :: (unit, unit any, 32 word) ChannelServer))))
     = [IRawInitializeResponse,
        IRawPromiseErrorResponse 0
          \<lparr>err_message = ''Channel name '' @ [CHR 0x27] @ ''svc'' @ [CHR 0x27]
              @ '' timed out after 1000ms'',
           err_name = ''Unknown channel'', err_stack = StackUndefined\<rparr>]"
  by (simp add: ChannelServer_new_def sendResponse_def send_def sendBuffer_def serializes_def
      sample_runtime_def onRawMessage_def onPromise_def
      collectPendingRequest_def setTimeout_def dispose_def timerFires_def pendingTimeout_def
      decimal.simps Let_def)

text \<open>
  Claim C4, amended. After \<^verbatim>\<open>dispose()\<close> the transport listener is detached,
  every handle of \<^verbatim>\<open>activeRequests\<close> has been disposed, in order, and
  \<^verbatim>\<open>activeRequests\<close> is empty; the channel registry, the pending queue and the
  armed timers are what they were.
\<close>

theorem dispose_effect:
  "\<not> protocolListener (dispose s)
   \<and> activeRequests (dispose s) = []
   \<and> disposed (dispose s) = disposed s @ map snd (activeRequests s)
   \<and> channels (dispose s) = channels s
   \<and> pendingRequests (dispose s) = pendingRequests s
   \<and> timers (dispose s) = timers s"
  by (simp add: dispose_def Let_def fold_dispose_fields)

section \<open>Properties: \<^verbatim>\<open>ChannelClient\<close>\<close>

subsection \<open>Requests without a body\<close>

lemma sendRequest_without_body:
  "sendRequest rt (IRawPromiseCancelRequest i) c
     = Some (ChannelClient_sendBuffer (IRawPromiseCancelRequest i) c)"
  "sendRequest rt (IRawEventDisposeRequest i) c
     = Some (ChannelClient_sendBuffer (IRawEventDisposeRequest i) c)"
  by (simp_all add: sendRequest_def ChannelClient_send_def serializes_def)

subsection \<open>Terminal responses\<close>

lemma id_ok_cong:
  assumes "requestOf c' i = requestOf c i" and "handlers c' i = handlers c i"
    and "uninitializedPromise c' i = uninitializedPromise c i" and "acted c' i = acted c i"
  shows "id_ok c' i = id_ok c i"
  unfolding id_ok_def assms ..

lemma inv_new: "client_inv ChannelClient_new"
  by (simp add: client_inv_def id_ok_def ChannelClient_new_def acted_def)

lemma id_ok_requestPromise:
  assumes "id_ok c j" and "requestOf c (lastRequestId c) = None"
  shows "id_ok (requestPromise cn n a b c) j"
  using assms
  by (auto simp: requestPromise_def Let_def id_ok_def acted_def
      split: option.splits IRawChannelRequest.splits if_splits)

lemma id_ok_requestEvent:
  assumes "id_ok c j" and "requestOf c (lastRequestId c) = None"
  shows "id_ok (requestEvent cn n a c) j"
  using assms
  by (auto simp: requestEvent_def Let_def id_ok_def acted_def
      split: option.splits IRawChannelRequest.splits if_splits)

lemma id_ok_whenInitialized_then:
  assumes "id_ok c j"
  shows "id_ok (whenInitialized_then rt i c) j"
  using assms
  by (auto simp: whenInitialized_then_def sendRequest_def ChannelClient_send_def
        ChannelClient_sendBuffer_def id_ok_def acted_def Let_def
      split: option.splits IRawChannelRequest.splits if_splits)

lemma id_ok_cancel:
  assumes "id_ok c j"
  shows "id_ok (cancel i c) j"
  using assms
  by (auto simp: cancel_def ChannelClient_sendBuffer_def Let_def id_ok_def acted_def
      split: option.splits IRawChannelRequest.splits if_splits)

lemma id_ok_subscribe:
  assumes "id_ok c j" and "isEvent c i"
  shows "id_ok (subscribe i c) j"
  using assms
  by (auto simp: subscribe_def onFirstListenerAdd_def isEvent_def Let_def id_ok_def acted_def
      split: option.splits IRawChannelRequest.splits if_splits)

lemma id_ok_unsubscribe:
  assumes "id_ok c j" and "isEvent c i"
  shows "id_ok (unsubscribe i c) j"
  using assms
  by (auto simp: unsubscribe_def onLastListenerRemove_def ChannelClient_sendBuffer_def isEvent_def Let_def
        id_ok_def acted_def
      split: option.splits IRawChannelRequest.splits if_splits)

lemma id_ok_promise_finally:
  assumes "id_ok c j"
  shows "id_ok (promise_finally i c) j"
  using assms id_ok_cong[of "promise_finally i c" j c]
  by (simp add: promise_finally_def acted_def)

lemma id_ok_onResponse:
  assumes "id_ok c j"
  shows "id_ok (onResponse r c) j"
proof (cases r)
  case IRawInitializeResponse
  then show ?thesis
    using assms id_ok_cong[of "onResponse r c" j c] by (simp add: onResponse_def acted_def)
next
  case (IRawPromiseSuccessResponse i d)
  then show ?thesis
    using assms
    by (auto simp: onResponse_def handler_def id_ok_def acted_def
        split: option.splits IRawChannelRequest.splits if_splits IHandler.splits)
next
  case (IRawPromiseErrorResponse i d)
  then show ?thesis
    using assms
    by (auto simp: onResponse_def handler_def id_ok_def acted_def
        split: option.splits IRawChannelRequest.splits if_splits IHandler.splits)
next
  case (IRawPromiseErrorObjResponse i d)
  then show ?thesis
    using assms
    by (auto simp: onResponse_def handler_def id_ok_def acted_def
        split: option.splits IRawChannelRequest.splits if_splits IHandler.splits)
next
  case (IRawEventFireResponse i d)
  then show ?thesis
    using assms
    by (auto simp: onResponse_def handler_def id_ok_def acted_def
        split: option.splits IRawChannelRequest.splits if_splits IHandler.splits)
qed

lemma id_ok_dispose_handle:
  assumes "id_ok c j"
  shows "id_ok (dispose_handle d c) j"
proof -
  have "id_ok (case d of CallDisposable i \<Rightarrow> cancel i c | EventEmitter i \<Rightarrow> c) j"
    using assms by (cases d) (simp_all add: id_ok_cancel)
  then show ?thesis
    using id_ok_cong[of "dispose_handle d c" j
        "case d of CallDisposable i \<Rightarrow> cancel i c | EventEmitter i \<Rightarrow> c"]
    by (simp add: dispose_handle_def Let_def acted_def)
qed

lemma id_ok_fold_dispose_handle:
  "id_ok c j \<Longrightarrow> id_ok (fold dispose_handle ds c) j"
  by (induction ds arbitrary: c) (simp_all add: id_ok_dispose_handle)

lemma id_ok_client_dispose:
  assumes "id_ok c j"
  shows "id_ok (client_dispose c) j"
proof -
  let ?c1 = "if protocolListenerC c then c\<lparr>protocolListenerC := False\<rparr> else c"
  have "id_ok ?c1 j"
    using assms id_ok_cong[of "c\<lparr>protocolListenerC := False\<rparr>" j c] by (simp add: acted_def)
  then have "id_ok (fold dispose_handle (activeRequestsC ?c1) ?c1) j"
    by (rule id_ok_fold_dispose_handle)
  then show ?thesis
    using id_ok_cong[of "client_dispose c" j "fold dispose_handle (activeRequestsC ?c1) ?c1"]
    by (simp add: client_dispose_def Let_def acted_def)
qed

lemma requestOf_dispose_handle: "requestOf (dispose_handle d c) = requestOf c"
  and lastRequestId_dispose_handle: "lastRequestId (dispose_handle d c) = lastRequestId c"
  by (cases d; simp add: dispose_handle_def cancel_def ChannelClient_sendBuffer_def Let_def)+

lemma requestOf_fold_dispose_handle:
  "requestOf (fold dispose_handle ds c) = requestOf c
   \<and> lastRequestId (fold dispose_handle ds c) = lastRequestId c"
  by (induction ds arbitrary: c)
     (simp_all add: requestOf_dispose_handle lastRequestId_dispose_handle)

lemma fresh_client_step:
  assumes "\<forall>i. lastRequestId c \<le> i \<longrightarrow> requestOf c i = None"
  shows "\<forall>i. lastRequestId (client_step rt e c) \<le> i \<longrightarrow> requestOf (client_step rt e c) i = None"
proof (cases e)
  case (ReceivesResponse r)
  then show ?thesis
    using assms
    by (cases r)
       (auto simp: onResponse_def handler_def split: option.splits IHandler.splits)
next
  case ClientDisposes
  then show ?thesis
    using assms by (simp add: client_dispose_def Let_def requestOf_fold_dispose_handle)
qed (use assms in \<open>auto simp: requestPromise_def requestEvent_def subscribe_def unsubscribe_def
      onFirstListenerAdd_def onLastListenerRemove_def whenInitialized_then_def cancel_def
      promise_finally_def sendRequest_def ChannelClient_send_def ChannelClient_sendBuffer_def Let_def
      split: option.splits IRawChannelRequest.splits if_splits\<close>)

lemma inv_client_step:
  assumes "client_inv c"
  shows "client_inv (client_step rt e c)"
proof -
  from assms have ok: "\<And>j. id_ok c j"
    and fresh: "\<forall>i. lastRequestId c \<le> i \<longrightarrow> requestOf c i = None"
    by (simp_all add: client_inv_def)
  have "id_ok (client_step rt e c) j" for j
    using ok[of j] fresh
    by (cases e)
       (simp_all add: id_ok_requestPromise id_ok_requestEvent id_ok_subscribe id_ok_unsubscribe
          id_ok_whenInitialized_then id_ok_cancel id_ok_promise_finally id_ok_onResponse
          id_ok_client_dispose)
  with fresh_client_step[OF fresh, of rt e] show ?thesis
    by (simp add: client_inv_def)
qed

lemma inv_client_run: "client_inv c \<Longrightarrow> client_inv (client_run rt es c)"
  unfolding client_run_def
  by (induction es arbitrary: c) (simp_all add: inv_client_step)

text \<open>
  Claim C5. Let \<open>c\<close> be a client after any run \<open>es\<close> from its construction, and
  \<open>i\<close> the id of one of its calls. At most one terminal response has been acted upon
  for \<open>i\<close>. The handler of \<open>i\<close> is absent or is the handler of a call. While it is
  installed no terminal response has been acted upon, and the first one, be it
  \<^verbatim>\<open>PromiseSuccess\<close>, \<^verbatim>\<open>PromiseError\<close> or \<^verbatim>\<open>PromiseErrorObj\<close>, removes
  the handler and settles the promise, after which any further response \<open>r\<close> carrying
  \<open>i\<close> leaves the client as it is. In general a response carrying \<open>i\<close> is
  ignored whenever \<open>i\<close> has no handler, which is the case once a terminal response
  has been acted upon.
\<close>

theorem one_terminal_response_per_promise:
  assumes "c = client_run rt es ChannelClient_new" and "isPromise c i"
  shows "length (acted c i) \<le> 1
    \<and> (handlers c i = None \<or> handlers c i = Some PromiseHandler)
    \<and> (handlers c i = Some PromiseHandler \<longrightarrow>
          acted c i = []
          \<and> onResponse (IRawPromiseSuccessResponse i d) c
              = c\<lparr>handlers := (handlers c)(i := None), settled := settled c @ [(i, Resolve d)]\<rparr>
          \<and> onResponse (IRawPromiseErrorResponse i e) c
              = c\<lparr>handlers := (handlers c)(i := None), settled := settled c @ [(i, RejectError e)]\<rparr>
          \<and> onResponse (IRawPromiseErrorObjResponse i d) c
              = c\<lparr>handlers := (handlers c)(i := None), settled := settled c @ [(i, RejectObj d)]\<rparr>
          \<and> (response_id r = Some i \<longrightarrow>
                onResponse r (onResponse (IRawPromiseSuccessResponse i d) c)
                  = onResponse (IRawPromiseSuccessResponse i d) c
                \<and> onResponse r (onResponse (IRawPromiseErrorResponse i e) c)
                  = onResponse (IRawPromiseErrorResponse i e) c
                \<and> onResponse r (onResponse (IRawPromiseErrorObjResponse i d) c)
                  = onResponse (IRawPromiseErrorObjResponse i d) c))
    \<and> (handlers c i = None \<longrightarrow> response_id r = Some i \<longrightarrow> onResponse r c = c)
    \<and> (acted c i \<noteq> [] \<longrightarrow> handlers c i = None)"
proof -
  have "client_inv c" unfolding assms(1) by (rule inv_client_run) (rule inv_new)
  then have ok: "id_ok c i" by (simp add: client_inv_def)
  have 1: "length (acted c i) \<le> 1"
    using ok by (auto simp: id_ok_def split: option.splits IRawChannelRequest.splits if_splits)
  have 2: "handlers c i = None \<or> handlers c i = Some PromiseHandler"
    using ok assms(2)
    by (auto simp: id_ok_def isPromise_def split: option.splits IRawChannelRequest.splits if_splits)
  have 3: "acted c i = []" if "handlers c i = Some PromiseHandler"
    using ok assms(2) that
    by (auto simp: id_ok_def isPromise_def split: option.splits IRawChannelRequest.splits if_splits)
  have gone: "onResponse r c' = c'" if "handlers c' i = None" and "response_id r = Some i"
    for c' :: "'a ChannelClient"
    using that by (cases r) (simp_all add: onResponse_def)
  have s: "onResponse (IRawPromiseSuccessResponse i d) c
              = c\<lparr>handlers := (handlers c)(i := None), settled := settled c @ [(i, Resolve d)]\<rparr>"
    and e: "onResponse (IRawPromiseErrorResponse i e) c
              = c\<lparr>handlers := (handlers c)(i := None), settled := settled c @ [(i, RejectError e)]\<rparr>"
    and o: "onResponse (IRawPromiseErrorObjResponse i d) c
              = c\<lparr>handlers := (handlers c)(i := None), settled := settled c @ [(i, RejectObj d)]\<rparr>"
    if "handlers c i = Some PromiseHandler"
    using that by (simp_all add: onResponse_def handler_def)
  have 4: "onResponse r (onResponse (IRawPromiseSuccessResponse i d) c)
                  = onResponse (IRawPromiseSuccessResponse i d) c
         \<and> onResponse r (onResponse (IRawPromiseErrorResponse i e) c)
                  = onResponse (IRawPromiseErrorResponse i e) c
         \<and> onResponse r (onResponse (IRawPromiseErrorObjResponse i d) c)
                  = onResponse (IRawPromiseErrorObjResponse i d) c"
    if h: "handlers c i = Some PromiseHandler" and r: "response_id r = Some i"
    unfolding s[OF h] e[OF h] o[OF h] using r by (intro conjI gone) simp_all
  have 5: "handlers c i = None" if "acted c i \<noteq> []"
    using ok that
    by (auto simp: id_ok_def split: option.splits IRawChannelRequest.splits if_splits)
  show ?thesis
    using 1 2 3 s e o 4 gone[of c] 5 by blast
qed

theorem one_terminal_response_per_promise_witness:
  "(let c = client_run sample_runtime [ReceivesResponse IRawInitializeResponse,
                        Calls ''svc'' ''ping'' (Str [0x68, 0x69]) False, Initialized 0] ChannelClient_new;
        failure = \<lparr>err_message = ''nope'', err_name = ''CustomError'',
                   err_stack = StackLines [''l1'', ''l2'']\<rparr>;
        c' = onResponse (IRawPromiseErrorResponse 0 failure) c
    in isPromise c 0 \<and> handlers c 0 = Some PromiseHandler
     \<and> response_id (IRawPromiseSuccessResponse 0 (Str [0x6C, 0x61, 0x74, 0x65])) = Some 0
     \<and> acted c 0 = []
     \<and> handlers c' 0 = None
     \<and> acted c' 0 = [(0, RejectError failure)]
     \<and> onResponse (IRawPromiseSuccessResponse 0 (Str [0x6C, 0x61, 0x74, 0x65])) c' = c')"
proof -
  let ?es = "[ReceivesResponse IRawInitializeResponse, Calls ''svc'' ''ping'' (Str [0x68, 0x69]) False,
              Initialized 0]"
  let ?c = "client_run sample_runtime ?es (ChannelClient_new :: unit any ChannelClient)"
  let ?f = "\<lparr>err_message = ''nope'', err_name = ''CustomError'',
             err_stack = StackLines [''l1'', ''l2'']\<rparr> :: unit any error_data"
  have a: "isPromise ?c 0" and b: "handlers ?c 0 = Some PromiseHandler"
    by (simp_all add: client_run_def ChannelClient_new_def onResponse_def requestPromise_def
        whenInitialized_then_def sendRequest_def
        ChannelClient_send_def ChannelClient_sendBuffer_def serializes_def sample_runtime_def isPromise_def set_add_def Let_def)
  have r: "response_id (IRawPromiseSuccessResponse 0 (Str [0x6C, 0x61, 0x74, 0x65])) = Some 0" by simp
  from one_terminal_response_per_promise[OF refl a, where e = ?f and d = "Str [0x6C, 0x61, 0x74, 0x65]"
      and r = "IRawPromiseSuccessResponse 0 (Str [0x6C, 0x61, 0x74, 0x65])"] b r
  have n: "acted ?c 0 = []"
    and e: "onResponse (IRawPromiseErrorResponse 0 ?f) ?c
              = ?c\<lparr>handlers := (handlers ?c)(0 := None),
                    settled := settled ?c @ [(0, RejectError ?f)]\<rparr>"
    and l: "onResponse (IRawPromiseSuccessResponse 0 (Str [0x6C, 0x61, 0x74, 0x65]))
              (onResponse (IRawPromiseErrorResponse 0 ?f) ?c)
            = onResponse (IRawPromiseErrorResponse 0 ?f) ?c"
    by blast+
  have h: "handlers (onResponse (IRawPromiseErrorResponse 0 ?f) ?c) 0 = None"
    unfolding e by simp
  have "acted (onResponse (IRawPromiseErrorResponse 0 ?f) ?c) 0 = acted ?c 0 @ [(0, RejectError ?f)]"
    unfolding e by (simp add: acted_def)
  then have m: "acted (onResponse (IRawPromiseErrorResponse 0 ?f) ?c) 0 = [(0, RejectError ?f)]"
    unfolding n by simp
  from a b r n h m l show ?thesis
    unfolding Let_def by blast
qed

subsection \<open>\<^verbatim>\<open>Initialize\<close>\<close>

text \<open>
  Claim C2 as stated fails: a client that receives two \<^verbatim>\<open>Initialize\<close> frames fires
  \<^verbatim>\<open>onDidInitialize\<close> twice.
\<close>

theorem second_Initialize_fires_again_counterexample:
  "didInitialize (client_run sample_runtime [ReceivesResponse IRawInitializeResponse,
                              ReceivesResponse IRawInitializeResponse]
                    (ChannelClient_new :: unit any ChannelClient)) = 2"
  by (simp add: client_run_def ChannelClient_new_def onResponse_def)

text \<open>
  Claim C2, amended. Over any sequence of inbound frames, \<^verbatim>\<open>onDidInitialize\<close>
  fires once for each \<^verbatim>\<open>Initialize\<close> frame, and the client is \<^verbatim>\<open>Idle\<close> from the
  first one on.
\<close>

theorem onDidInitialize_fires_per_Initialize:
  "didInitialize (fold onResponse rs c)
     = didInitialize c + length (filter (\<lambda>r. r = IRawInitializeResponse) rs)
   \<and> state (fold onResponse rs c)
     = (if IRawInitializeResponse \<in> set rs then Idle else state c)"
proof (induction rs arbitrary: c)
  case Nil
  show ?case by simp
next
  case (Cons r rs)
  have "didInitialize (onResponse r c)
          = didInitialize c + (if r = IRawInitializeResponse then 1 else 0)
        \<and> state (onResponse r c) = (if r = IRawInitializeResponse then Idle else state c)"
    by (cases r)
       (auto simp: onResponse_def handler_def split: option.splits IHandler.splits
          IRawResponse.splits)
  with Cons.IH[of "onResponse r c"] show ?case by auto
qed

subsection \<open>The last subscriber of an event\<close>

text \<open>
  Claim C3 as stated fails: an initialized client listens to an event, gets a
  subscriber, sends \<^verbatim>\<open>EventListen\<close>, loses the subscriber and sends
  \<^verbatim>\<open>EventDispose\<close>; the handler of the request is still in \<^verbatim>\<open>handlers\<close>.
\<close>

theorem last_unsubscribe_keeps_handler_counterexample:
  "sentC (client_run sample_runtime [ReceivesResponse IRawInitializeResponse, Listens ''svc'' ''onTick'' Undefined,
                      Subscribes 0, Initialized 0, Unsubscribes 0] ChannelClient_new)
     = [ChannelRequest (IRawEventListenRequest 0 ''svc'' ''onTick'' Undefined), IRawEventDisposeRequest 0]
   \<and> handlers (client_run sample_runtime [ReceivesResponse IRawInitializeResponse, Listens ''svc'' ''onTick'' Undefined,
                      Subscribes 0, Initialized 0, Unsubscribes 0]
                 (ChannelClient_new :: unit any ChannelClient)) 0 = Some EventHandler"
  by (simp add: client_run_def ChannelClient_new_def onResponse_def requestEvent_def isEvent_def
      subscribe_def unsubscribe_def onFirstListenerAdd_def onLastListenerRemove_def
      whenInitialized_then_def sendRequest_def
        ChannelClient_send_def ChannelClient_sendBuffer_def serializes_def sample_runtime_def set_add_def Let_def)

text \<open>
  Claim C3, amended. When the last subscriber of the event of request \<open>i\<close> is removed
  and the wait for initialization is over, the client sends \<^verbatim>\<open>EventDispose\<close> for
  \<open>i\<close> and takes the emitter out of \<^verbatim>\<open>activeRequests\<close>; \<^verbatim>\<open>handlers\<close> is left
  as it is.
\<close>

theorem last_unsubscribe_sends_EventDispose:
  assumes "isEvent c i" and "listenerCount c i = 1" and "\<not> uninitializedPromise c i"
  shows "sentC (client_step rt (Unsubscribes i) c) = sentC c @ [IRawEventDisposeRequest i]
    \<and> activeRequestsC (client_step rt (Unsubscribes i) c) = removeAll (EventEmitter i) (activeRequestsC c)
    \<and> handlers (client_step rt (Unsubscribes i) c) = handlers c"
  using assms
  by (simp add: unsubscribe_def onLastListenerRemove_def ChannelClient_sendBuffer_def Let_def)

theorem last_unsubscribe_sends_EventDispose_witness:
  "isEvent (client_run sample_runtime [ReceivesResponse IRawInitializeResponse, Listens ''svc'' ''onTick'' Undefined,
                        Subscribes 0, Initialized 0] ChannelClient_new) 0
   \<and> listenerCount (client_run sample_runtime [ReceivesResponse IRawInitializeResponse, Listens ''svc'' ''onTick'' Undefined,
                        Subscribes 0, Initialized 0] (ChannelClient_new :: unit any ChannelClient)) 0 = 1
   \<and> \<not> uninitializedPromise (client_run sample_runtime [ReceivesResponse IRawInitializeResponse,
                        Listens ''svc'' ''onTick'' Undefined, Subscribes 0, Initialized 0]
                        (ChannelClient_new :: unit any ChannelClient)) 0
   \<and> sentC (client_step sample_runtime (Unsubscribes 0)
        (client_run sample_runtime [ReceivesResponse IRawInitializeResponse, Listens ''svc'' ''onTick'' Undefined,
                     Subscribes 0, Initialized 0] ChannelClient_new))
      = [ChannelRequest (IRawEventListenRequest 0 ''svc'' ''onTick'' Undefined), IRawEventDisposeRequest 0]
   \<and> activeRequestsC (client_step sample_runtime (Unsubscribes 0)
        (client_run sample_runtime [ReceivesResponse IRawInitializeResponse, Listens ''svc'' ''onTick'' Undefined,
                     Subscribes 0, Initialized 0] (ChannelClient_new :: unit any ChannelClient))) = []
   \<and> handlers (client_step sample_runtime (Unsubscribes 0)
        (client_run sample_runtime [ReceivesResponse IRawInitializeResponse, Listens ''svc'' ''onTick'' Undefined,
                     Subscribes 0, Initialized 0] (ChannelClient_new :: unit any ChannelClient))) 0
      = Some EventHandler"
proof -
  let ?c = "client_run sample_runtime [ReceivesResponse IRawInitializeResponse, Listens ''svc'' ''onTick'' Undefined,
                        Subscribes 0, Initialized 0] (ChannelClient_new :: unit any ChannelClient)"
  have a: "isEvent ?c 0" and b: "listenerCount ?c 0 = 1" and c: "\<not> uninitializedPromise ?c 0"
    and d: "sentC ?c = [ChannelRequest (IRawEventListenRequest 0 ''svc'' ''onTick'' Undefined)]"
    and e: "activeRequestsC ?c = [EventEmitter 0]"
    and f: "handlers ?c 0 = Some EventHandler"
    by (simp_all add: client_run_def ChannelClient_new_def onResponse_def requestEvent_def
        isEvent_def subscribe_def onFirstListenerAdd_def whenInitialized_then_def sendRequest_def
        ChannelClient_send_def ChannelClient_sendBuffer_def serializes_def sample_runtime_def
        set_add_def Let_def)
  from last_unsubscribe_sends_EventDispose[OF a b c] a b c show ?thesis
    unfolding d e by (simp add: f)
qed

section \<open>Properties: \<^verbatim>\<open>IPCServer\<close>\<close>

subsection \<open>Who disposes a connection\<close>

lemma register_on_other:
  "objects h k = Some connection \<Longrightarrow>
   \<exists>connection'. objects (register_on cn channel j h) k = Some connection'
     \<and> undisposed_as connection connection'"
  by (auto simp: register_on_def undisposed_as_def registerChannel_def setTimeout_def
      split: option.splits)

lemma undisposed_as_trans:
  "undisposed_as a b \<Longrightarrow> undisposed_as b c \<Longrightarrow> undisposed_as a c"
  by (simp add: undisposed_as_def)

lemma fold_register_on:
  "objects h k = Some connection \<Longrightarrow>
   \<exists>connection'. objects (fold (register_on cn channel) js h) k = Some connection'
     \<and> undisposed_as connection connection'"
proof (induction js arbitrary: h connection)
  case Nil
  then show ?case by (simp add: undisposed_as_def)
next
  case (Cons j js)
  from register_on_other[OF Cons.prems, of cn channel j] obtain c1 where
    c1: "objects (register_on cn channel j h) k = Some c1" "undisposed_as connection c1"
    by blast
  from Cons.IH[OF c1(1)] obtain c2 where
    "objects (fold (register_on cn channel) js (register_on cn channel j h)) k = Some c2"
    "undisposed_as c1 c2" by blast
  with c1(2) show ?case by (auto intro: undisposed_as_trans)
qed

text \<open>
  Claim C9. \<^verbatim>\<open>IPCServer.dispose()\<close> empties the hub's channel registry and its
  connection set and leaves every connection object as it is. The disconnect event of
  connection \<open>k\<close> disposes its \<^verbatim>\<open>ChannelServer\<close> and its \<^verbatim>\<open>ChannelClient\<close>,
  whose listeners are detached afterwards. No other operation \<open>e\<close> of the hub
  disposes them: the server's listener and its disposed handles are what they were,
  and the client is unchanged.
\<close>

theorem IPCServer_dispose_leaves_connections:
  "hub_channels (IPCServer_dispose h) = []
   \<and> connections (IPCServer_dispose h) = []
   \<and> objects (IPCServer_dispose h) = objects h
   \<and> (objects h k = Some connection \<longrightarrow>
        objects (hub_step (ClientDisconnects k) h) k
          = Some (connection\<lparr>channelServer := dispose (channelServer connection),
                             channelClient := client_dispose (channelClient connection)\<rparr>)
        \<and> \<not> protocolListener (dispose (channelServer connection))
        \<and> \<not> protocolListenerC (client_dispose (channelClient connection)))
   \<and> (objects h k = Some connection \<longrightarrow> k < nextConnection h \<longrightarrow> e \<noteq> ClientDisconnects k \<longrightarrow>
        (\<exists>connection'. objects (hub_step e h) k = Some connection'
           \<and> protocolListener (channelServer connection') = protocolListener (channelServer connection)
           \<and> disposed (channelServer connection') = disposed (channelServer connection)
           \<and> channelClient connection' = channelClient connection))"
proof -
  have a: "hub_channels (IPCServer_dispose h) = [] \<and> connections (IPCServer_dispose h) = []
      \<and> objects (IPCServer_dispose h) = objects h"
    by (simp add: IPCServer_dispose_def)
  have b: "objects (hub_step (ClientDisconnects k) h) k
          = Some (connection\<lparr>channelServer := dispose (channelServer connection),
                             channelClient := client_dispose (channelClient connection)\<rparr>)
        \<and> \<not> protocolListener (dispose (channelServer connection))
        \<and> \<not> protocolListenerC (client_dispose (channelClient connection))"
    if "objects h k = Some connection"
  proof -
    have "\<not> protocolListenerC (fold dispose_handle ds c)" if "\<not> protocolListenerC c"
      for ds and c :: "'b ChannelClient"
      using that
    proof (induction ds arbitrary: c)
      case Nil
      then show ?case by simp
    next
      case (Cons d ds)
      have "\<not> protocolListenerC (dispose_handle d c)"
        using Cons.prems
        by (cases d) (simp_all add: dispose_handle_def cancel_def ChannelClient_sendBuffer_def Let_def)
      then show ?case using Cons.IH by simp
    qed
    then have "\<not> protocolListenerC (client_dispose (channelClient connection))"
      by (simp add: client_dispose_def Let_def)
    moreover have "\<not> protocolListener (dispose (channelServer connection))"
      by (simp add: dispose_def Let_def fold_dispose_fields)
    ultimately show ?thesis using that by (simp add: onDidClientDisconnect_def)
  qed
  have c: "\<exists>connection'. objects (hub_step e h) k = Some connection'
           \<and> protocolListener (channelServer connection') = protocolListener (channelServer connection)
           \<and> disposed (channelServer connection') = disposed (channelServer connection)
           \<and> channelClient connection' = channelClient connection"
    if o: "objects h k = Some connection" and lt: "k < nextConnection h"
      and ne: "e \<noteq> ClientDisconnects k"
  proof (cases e)
    case (ClientConnects c)
    then show ?thesis using o lt by (simp add: onFirstMessage_def Let_def)
  next
    case (ClientDisconnects j)
    with ne have "j \<noteq> k" by simp
    then show ?thesis using o ClientDisconnects
      by (simp add: onDidClientDisconnect_def split: option.splits)
  next
    case (HubRegisters cn channel)
    have "objects (h\<lparr>hub_channels := AList.update cn channel (hub_channels h)\<rparr>) k = Some connection"
      using o by simp
    from fold_register_on[OF this, of cn channel "connections h"] HubRegisters
    show ?thesis by (simp add: IPCServer_registerChannel_def undisposed_as_def)
  next
    case HubDisposes
    then show ?thesis using o by (simp add: IPCServer_dispose_def)
  qed
  from a b c show ?thesis by blast
qed

theorem IPCServer_dispose_leaves_connections_witness:
  "objects (hub_step (ClientConnects ()) (IPCServer_new :: (unit, unit, nat) IPCServer)) 0
     = Some \<lparr>channelServer = ChannelServer_new () 1000, channelClient = ChannelClient_new,
             connection_ctx = ()\<rparr>
   \<and> 0 < nextConnection (hub_step (ClientConnects ()) (IPCServer_new :: (unit, unit, nat) IPCServer))
   \<and> (HubDisposes :: (unit, unit) hub_event) \<noteq> ClientDisconnects 0
   \<and> objects (hub_step HubDisposes (hub_step (ClientConnects ()) (IPCServer_new :: (unit, unit, nat) IPCServer))) 0
     = Some \<lparr>channelServer = ChannelServer_new () 1000, channelClient = ChannelClient_new,
             connection_ctx = ()\<rparr>
   \<and> protocolListener (ChannelServer_new () 1000 :: (unit, unit, nat) ChannelServer)
   \<and> protocolListenerC (ChannelClient_new :: unit ChannelClient)
   \<and> connections (hub_step (ClientConnects ()) (IPCServer_new :: (unit, unit, nat) IPCServer)) = [0]
   \<and> connections (hub_step HubDisposes (hub_step (ClientConnects ()) (IPCServer_new :: (unit, unit, nat) IPCServer))) = []
   \<and> (\<exists>connection'.
        objects (hub_step (ClientDisconnects 0)
          (hub_step HubDisposes (hub_step (ClientConnects ()) (IPCServer_new :: (unit, unit, nat) IPCServer)))) 0
          = Some connection'
        \<and> \<not> protocolListener (channelServer connection')
        \<and> \<not> protocolListenerC (channelClient connection'))"
proof -
  let ?h = "hub_step (ClientConnects ()) (IPCServer_new :: (unit, unit, nat) IPCServer)"
  let ?conn = "\<lparr>channelServer = ChannelServer_new () 1000 :: (unit, unit, nat) ChannelServer,
                channelClient = ChannelClient_new :: unit ChannelClient, connection_ctx = ()\<rparr>"
  have o: "objects ?h 0 = Some ?conn" and n: "0 < nextConnection ?h"
    and cs: "connections ?h = [0]"
    by (simp_all add: onFirstMessage_def IPCServer_new_def set_add_def Let_def)
  have ne: "(HubDisposes :: (unit, unit) hub_event) \<noteq> ClientDisconnects 0" by simp
  have l: "protocolListener (ChannelServer_new () 1000 :: (unit, unit, nat) ChannelServer)"
    "protocolListenerC (ChannelClient_new :: unit ChannelClient)"
    by (simp_all add: ChannelServer_new_def sendBuffer_def ChannelClient_new_def)
  have d: "objects (IPCServer_dispose ?h) 0 = Some ?conn"
    using IPCServer_dispose_leaves_connections[where h = ?h and k = 0 and connection = ?conn and e = HubDisposes] o by simp
  have e: "connections (hub_step HubDisposes ?h) = []"
    using IPCServer_dispose_leaves_connections[where h = ?h and k = 0 and connection = ?conn and e = HubDisposes] by simp
  have f: "\<exists>connection'. objects (hub_step (ClientDisconnects 0) (hub_step HubDisposes ?h)) 0
          = Some connection'
        \<and> \<not> protocolListener (channelServer connection')
        \<and> \<not> protocolListenerC (channelClient connection')"
    using IPCServer_dispose_leaves_connections[where h = "IPCServer_dispose ?h" and k = 0 and connection = ?conn and e = HubDisposes] d
    by simp
  from o n ne d l cs e f show ?thesis by simp
qed

end
